theory Spec2Isabelle
  imports Main "HOL-Library.Sublist"
begin

section \<open>JavaScript values, objects and strings\<close>

text \<open>
  The values the ORM handles are untyped at run time (\<^verbatim>\<open>any\<close>), so they are modelled
  by one datatype. Numbers are restricted to integers (rendered in decimal, which is
  what JavaScript prints for every integer below \<open>10^21\<close> in absolute value).
  An object is the list of its own enumerable string-keyed properties, in the order
  \<^verbatim>\<open>Object.keys\<close> lists them; keys of one object are pairwise different. Every
  object is a plain object: its prototype is \<^verbatim>\<open>Object.prototype\<close>, whose members
  are built-in functions. Strings are lists of characters.
\<close>

datatype jsval =
    Undefined
  | Null
  | Bool bool
  | Num int
  | Str string
  | Obj "(string \<times> jsval) list"
  | NativeFunction string

type_synonym object = "(string \<times> jsval) list"

datatype js_error =
    TypeError string
  | Error string
  | DriverError string

text \<open>Decimal rendering of a number, as a template literal prints it.\<close>

definition digit_char :: "nat \<Rightarrow> char" where
  "digit_char d = ''0123456789'' ! d"

fun decimal_digits :: "nat \<Rightarrow> nat list" where
  "decimal_digits n =
     (if 10 \<le> n then decimal_digits (n div 10) @ [n mod 10] else [n])"

declare decimal_digits.simps [simp del]

definition nat_toString :: "nat \<Rightarrow> string" where
  "nat_toString n = map digit_char (decimal_digits n)"

definition Number_toString :: "int \<Rightarrow> string" where
  "Number_toString i =
     (if 0 \<le> i then nat_toString (nat i) else CHR ''-'' # nat_toString (nat (- i)))"

text \<open>
  \<^verbatim>\<open>obj[key]\<close> reads an own property when there is one, also when its value is
  \<^verbatim>\<open>undefined\<close>, and the prototype chain otherwise. \<open>inherited key\<close> is what
  \<^verbatim>\<open>Object.prototype\<close> gives: its methods, the function \<^verbatim>\<open>Object\<close> for
  \<^verbatim>\<open>constructor\<close>, \<^verbatim>\<open>Object.prototype\<close> itself (an object with no enumerable key)
  for \<^verbatim>\<open>__proto__\<close>, and \<^verbatim>\<open>undefined\<close> for every other key. None of these members
  is enumerable, so \<^verbatim>\<open>Object.keys\<close> and the spread never see them.
\<close>

definition Object_prototype_methods :: "string list" where
  "Object_prototype_methods =
     [''__defineGetter__'', ''__defineSetter__'', ''hasOwnProperty'', ''__lookupGetter__'',
      ''__lookupSetter__'', ''isPrototypeOf'', ''propertyIsEnumerable'', ''toString'',
      ''valueOf'', ''toLocaleString'']"

definition inherited :: "string \<Rightarrow> jsval" where
  "inherited k =
     (if k = ''constructor'' then NativeFunction ''Object''
      else if k = ''__proto__'' then Obj []
      else if k \<in> set Object_prototype_methods then NativeFunction k
      else Undefined)"

definition js_get :: "object \<Rightarrow> string \<Rightarrow> jsval" where
  "js_get obj k = (case map_of obj k of None \<Rightarrow> inherited k | Some v \<Rightarrow> v)"

text \<open>\<^verbatim>\<open>Object.keys(obj)\<close> on an object.\<close>

definition object_keys :: "object \<Rightarrow> string list" where
  "object_keys obj = map fst obj"

text \<open>\<^verbatim>\<open>Object.keys(v)\<close> on any value: it throws on \<^verbatim>\<open>undefined\<close> and \<^verbatim>\<open>null\<close>,
  lists the indices of a string, and finds no key in a number, a boolean or a built-in
  function.\<close>

fun Object_keys :: "jsval \<Rightarrow> js_error + string list" where
  "Object_keys Undefined = Inl (TypeError ''Cannot convert undefined or null to object'')"
| "Object_keys Null = Inl (TypeError ''Cannot convert undefined or null to object'')"
| "Object_keys (Bool b) = Inr []"
| "Object_keys (Num n) = Inr []"
| "Object_keys (Str s) = Inr (map nat_toString [0..<length s])"
| "Object_keys (Obj kvs) = Inr (object_keys kvs)"
| "Object_keys (NativeFunction f) = Inr []"

text \<open>\<^verbatim>\<open>rows[i]\<close> on an array of objects, and \<^verbatim>\<open>xs[i]\<close>, \<^verbatim>\<open>xs[key]\<close> on an array of
  values: \<^verbatim>\<open>undefined\<close> out of range; an array's own properties are its indices
  and \<^verbatim>\<open>length\<close>.\<close>

definition rows_index :: "object list \<Rightarrow> nat \<Rightarrow> jsval" where
  "rows_index rs i = (if i < length rs then Obj (rs ! i) else Undefined)"

definition array_index :: "jsval list \<Rightarrow> nat \<Rightarrow> jsval" where
  "array_index xs i = (if i < length xs then xs ! i else Undefined)"

definition array_get :: "jsval list \<Rightarrow> string \<Rightarrow> jsval" where
  "array_get xs k =
     (if k = ''length'' then Num (int (length xs))
      else case filter (\<lambda>i. nat_toString i = k) [0..<length xs] of
             [] \<Rightarrow> Undefined
           | i # _ \<Rightarrow> xs ! i)"

text \<open>\<^verbatim>\<open>{...a, ...b}\<close>: the keys of \<open>a\<close> in their order, each with the value \<open>b\<close>
  gives it when \<open>b\<close> has the key, then the keys only \<open>b\<close> has.\<close>

definition js_spread :: "object \<Rightarrow> object \<Rightarrow> object" where
  "js_spread a b =
     map (\<lambda>(k, v). (k, case map_of b k of None \<Rightarrow> v | Some v' \<Rightarrow> v')) a
     @ filter (\<lambda>(k, v). k \<notin> set (map fst a)) b"

text \<open>Truthiness, \<^verbatim>\<open>a || b\<close> and \<^verbatim>\<open>typeof\<close>.\<close>

fun js_truthy :: "jsval \<Rightarrow> bool" where
  "js_truthy Undefined = False"
| "js_truthy Null = False"
| "js_truthy (Bool b) = b"
| "js_truthy (Num n) = (n \<noteq> 0)"
| "js_truthy (Str s) = (s \<noteq> [])"
| "js_truthy (Obj kvs) = True"
| "js_truthy (NativeFunction f) = True"

definition js_or :: "jsval \<Rightarrow> jsval \<Rightarrow> jsval" where
  "js_or a b = (if js_truthy a then a else b)"

fun js_typeof :: "jsval \<Rightarrow> string" where
  "js_typeof Undefined = ''undefined''"
| "js_typeof Null = ''object''"
| "js_typeof (Bool b) = ''boolean''"
| "js_typeof (Num n) = ''number''"
| "js_typeof (Str s) = ''string''"
| "js_typeof (Obj kvs) = ''object''"
| "js_typeof (NativeFunction f) = ''function''"

text \<open>\<^verbatim>\<open>`${v}`\<close>: the string a template literal interpolates for a value.\<close>

fun js_to_string :: "jsval \<Rightarrow> string" where
  "js_to_string Undefined = ''undefined''"
| "js_to_string Null = ''null''"
| "js_to_string (Bool b) = (if b then ''true'' else ''false'')"
| "js_to_string (Num n) = Number_toString n"
| "js_to_string (Str s) = s"
| "js_to_string (Obj kvs) = ''[object Object]''"
| "js_to_string (NativeFunction f) = ''function '' @ f @ ''() { [native code] }''"

text \<open>\<^verbatim>\<open>xs.join(sep)\<close> on an array of strings.\<close>

fun join :: "string \<Rightarrow> string list \<Rightarrow> string" where
  "join sep [] = []"
| "join sep [x] = x"
| "join sep (x # y # ys) = x @ sep @ join sep (y # ys)"

text \<open>\<^verbatim>\<open>`"${s}"`\<close>: an identifier between double quotes, nothing escaped.\<close>

definition quoted :: "string \<Rightarrow> string" where
  \<open>quoted s = ''"'' @ s @ ''"''\<close>

subsection \<open>\<^verbatim>\<open>String.prototype.replace\<close> with a global two-character pattern\<close>

text \<open>
  The builder rewrites a predicate's source text with \<^verbatim>\<open>.replace(/t\./g, repl)\<close>.
  The replacement is a string, so JavaScript expands the patterns \<^verbatim>\<open>$$\<close>,
  \<^verbatim>\<open>$&\<close>, \<^verbatim>\<open>$`\<close> and \<^verbatim>\<open>$'\<close> in it at every match; the pattern has no capture
  group, so \<^verbatim>\<open>$1\<close> and \<^verbatim>\<open>$<name>\<close> stand for themselves.
\<close>

fun expand_replacement :: "string \<Rightarrow> string \<Rightarrow> string \<Rightarrow> string \<Rightarrow> string" where
  "expand_replacement matched preceding following (c # d # rest) =
     (if c = CHR ''$'' \<and> d = CHR ''$'' then
        CHR ''$'' # expand_replacement matched preceding following rest
      else if c = CHR ''$'' \<and> d = CHR ''&'' then
        matched @ expand_replacement matched preceding following rest
      else if c = CHR ''$'' \<and> d = CHR 0x60 then
        preceding @ expand_replacement matched preceding following rest
      else if c = CHR ''$'' \<and> d = CHR 0x27 then
        following @ expand_replacement matched preceding following rest
      else c # expand_replacement matched preceding following (d # rest))"
| "expand_replacement matched preceding following cs = cs"

text \<open>\<open>replace_global a b repl preceding s\<close>: \<open>s\<close> is what is left to scan,
  \<open>preceding\<close> the part of the input already scanned; every occurrence of the two
  characters \<open>a b\<close>, found from left to right, is replaced by the expansion of
  \<open>repl\<close>.\<close>

fun replace_global :: "char \<Rightarrow> char \<Rightarrow> string \<Rightarrow> string \<Rightarrow> string \<Rightarrow> string" where
  "replace_global a b repl preceding (c # d # rest) =
     (if c = a \<and> d = b then
        expand_replacement [a, b] preceding rest repl
        @ replace_global a b repl (preceding @ [c, d]) rest
      else c # replace_global a b repl (preceding @ [c]) (d # rest))"
| "replace_global a b repl preceding cs = cs"

section \<open>The store: builder objects and parameter arrays\<close>

text \<open>
  A \<^verbatim>\<open>PgQueryBuilder\<close> is a mutable object whose \<^verbatim>\<open>params\<close> field refers to a
  mutable array. Both live in a store and are named by their index in it; \<^verbatim>\<open>new\<close>
  appends. The world holds one \<^verbatim>\<open>pg.Client\<close>: a connection object is the
  \<^verbatim>\<open>PgConnection\<close> that wraps it or a \<^verbatim>\<open>PgTransaction\<close> on that connection.
\<close>

datatype Connection = PgConnection | PgTransaction

record PgQueryBuilder =
  connection :: Connection
  entity :: object
  sql :: string
  params :: nat

record store =
  arrays :: "jsval list list"
  builders :: "PgQueryBuilder list"

definition sql_of :: "store \<Rightarrow> nat \<Rightarrow> string" where
  "sql_of s qb = sql (builders s ! qb)"

definition params_of :: "store \<Rightarrow> nat \<Rightarrow> jsval list" where
  "params_of s qb = arrays s ! params (builders s ! qb)"

text \<open>\<^verbatim>\<open>qb.sql = v\<close>, \<^verbatim>\<open>qb.sql += v\<close> and \<^verbatim>\<open>qb.params.push(v)\<close>.\<close>

definition set_sql :: "store \<Rightarrow> nat \<Rightarrow> string \<Rightarrow> store" where
  "set_sql s qb v = s\<lparr>builders := (builders s)[qb := (builders s ! qb)\<lparr>sql := v\<rparr>]\<rparr>"

definition sql_append :: "store \<Rightarrow> nat \<Rightarrow> string \<Rightarrow> store" where
  "sql_append s qb v = set_sql s qb (sql_of s qb @ v)"

definition params_push :: "store \<Rightarrow> nat \<Rightarrow> jsval \<Rightarrow> store" where
  "params_push s qb v =
     (let p = params (builders s ! qb)
      in s\<lparr>arrays := (arrays s)[p := arrays s ! p @ [v]]\<rparr>)"

text \<open>The constructor: a fresh empty array, and a fresh builder with empty SQL.\<close>

definition new_PgQueryBuilder :: "store \<Rightarrow> Connection \<Rightarrow> object \<Rightarrow> nat \<times> store" where
  "new_PgQueryBuilder s conn ent =
     (let p = length (arrays s);
          s1 = s\<lparr>arrays := arrays s @ [[]]\<rparr>;
          qb = length (builders s1)
      in (qb, s1\<lparr>builders := builders s1
                  @ [\<lparr>connection = conn, entity = ent, sql = [], params = p\<rparr>]\<rparr>))"

text \<open>\<^verbatim>\<open>this.entity.tableName\<close> inside a template literal.\<close>

definition tableName :: "object \<Rightarrow> string" where
  "tableName ent = js_to_string (js_get ent ''tableName'')"

section \<open>The query builder\<close>

definition PgQueryBuilder_select :: "store \<Rightarrow> nat \<Rightarrow> string list \<Rightarrow> nat \<times> store" where
  "PgQueryBuilder_select s this columns =
     (let (qb, s1) = new_PgQueryBuilder s (connection (builders s ! this))
                       (entity (builders s ! this))
      in (qb, set_sql s1 qb
                (''SELECT '' @ join '', '' (map quoted columns)
                 @ '' FROM '' @ quoted (tableName (entity (builders s1 ! this))))))"

text \<open>The callback of \<^verbatim>\<open>columns.map\<close> in \<^verbatim>\<open>insert\<close>, run over the columns in order.\<close>

fun insert_values :: "store \<Rightarrow> nat \<Rightarrow> object \<Rightarrow> string list \<Rightarrow> string list \<times> store" where
  "insert_values s qb row [] = ([], s)"
| "insert_values s qb row (column # columns) =
     (let v = js_get row column
      in if v = Undefined then
           (let (vs, s') = insert_values s qb row columns in (''NULL'' # vs, s'))
         else
           (let s1 = params_push s qb v;
                ph = ''$'' @ nat_toString (length (params_of s1 qb));
                (vs, s') = insert_values s1 qb row columns
            in (ph # vs, s')))"

text \<open>The \<^verbatim>\<open>for\<close> loop of \<^verbatim>\<open>insert\<close> over the rows that are left;
  \<^verbatim>\<open>i < rows.length - 1\<close> holds exactly when a row follows.\<close>

fun insert_rows :: "store \<Rightarrow> nat \<Rightarrow> string list \<Rightarrow> object list \<Rightarrow> store" where
  "insert_rows s qb columns [] = s"
| "insert_rows s qb columns (row # rest) =
     (let (vs, s1) = insert_values s qb row columns;
          s2 = sql_append s1 qb (''('' @ join '', '' vs @ '')'');
          s3 = (if rest \<noteq> [] then sql_append s2 qb '', '' else s2)
      in insert_rows s3 qb columns rest)"

text \<open>\<^verbatim>\<open>insert(...rows)\<close>. The columns are \<^verbatim>\<open>Object.keys(rows[0])\<close>; when that
  throws, the builder made just before is left unreachable in the store.\<close>

definition PgQueryBuilder_insert ::
  "store \<Rightarrow> nat \<Rightarrow> object list \<Rightarrow> (js_error + nat) \<times> store" where
  "PgQueryBuilder_insert s this rs =
     (let (qb, s1) = new_PgQueryBuilder s (connection (builders s ! this))
                       (entity (builders s ! this))
      in case Object_keys (rows_index rs 0) of
           Inl e \<Rightarrow> (Inl e, s1)
         | Inr columns \<Rightarrow>
             (let s2 = set_sql s1 qb
                         (''INSERT INTO '' @ quoted (tableName (entity (builders s1 ! this)))
                          @ '' ('' @ join '', '' (map quoted columns) @ '') VALUES'')
              in (Inr qb, insert_rows s2 qb columns rs)))"

text \<open>The \<^verbatim>\<open>for\<close> loop of \<^verbatim>\<open>update\<close> over the keys that are left;
  \<^verbatim>\<open>i < keys.length - 1\<close> holds exactly when a key follows.\<close>

fun update_keys :: "store \<Rightarrow> nat \<Rightarrow> object \<Rightarrow> string list \<Rightarrow> store" where
  "update_keys s qb columns [] = s"
| "update_keys s qb columns (key # rest) =
     (let v = js_get columns key;
          s1 = sql_append s qb ('' '' @ quoted key @ '' ='');
          s2 = (if v = Undefined then sql_append s1 qb '' NULL''
                else (let s' = params_push s1 qb v
                      in sql_append s' qb
                           ('' $'' @ nat_toString (length (params_of s' qb)))));
          s3 = (if rest \<noteq> [] then sql_append s2 qb '', '' else s2)
      in update_keys s3 qb columns rest)"

definition PgQueryBuilder_update :: "store \<Rightarrow> nat \<Rightarrow> object \<Rightarrow> nat \<times> store" where
  "PgQueryBuilder_update s this columns =
     (let (qb, s1) = new_PgQueryBuilder s (connection (builders s ! this))
                       (entity (builders s ! this));
          s2 = set_sql s1 qb
                 (''UPDATE '' @ quoted (tableName (entity (builders s1 ! this))) @ '' SET'')
      in (qb, update_keys s2 qb columns (object_keys columns)))"

definition PgQueryBuilder_delete :: "store \<Rightarrow> nat \<Rightarrow> nat \<times> store" where
  "PgQueryBuilder_delete s this =
     (let (qb, s1) = new_PgQueryBuilder s (connection (builders s ! this))
                       (entity (builders s ! this))
      in (qb, set_sql s1 qb
                (''DELETE FROM '' @ quoted (tableName (entity (builders s1 ! this))))))"

text \<open>
  A predicate reaches the builder as a function; the builder only reads its source text
  (\<^verbatim>\<open>Function.prototype.toString\<close>), so a predicate is modelled by that text.
  \<open>join_condition\<close> is the two chained \<^verbatim>\<open>replace\<close> calls of the joins.
\<close>

definition join_condition :: "object \<Rightarrow> object \<Rightarrow> string \<Rightarrow> string" where
  "join_condition this_entity other on =
     replace_global (CHR ''u'') (CHR ''.'') (quoted (tableName other) @ ''.'') []
       (replace_global (CHR ''t'') (CHR ''.'') (quoted (tableName this_entity) @ ''.'') [] on)"

definition PgQueryBuilder_innerJoin :: "store \<Rightarrow> nat \<Rightarrow> object \<Rightarrow> string \<Rightarrow> nat \<times> store" where
  "PgQueryBuilder_innerJoin s this other on =
     (let (qb, s1) = new_PgQueryBuilder s (connection (builders s ! this))
                       (js_spread (entity (builders s ! this)) other);
          s2 = set_sql s1 qb
                 (''SELECT * FROM '' @ quoted (tableName (entity (builders s1 ! this)))
                  @ '' INNER JOIN '' @ quoted (tableName other) @ '' ON'');
          condition = join_condition (entity (builders s2 ! this)) other on
      in (qb, sql_append s2 qb condition))"

definition PgQueryBuilder_leftJoin :: "store \<Rightarrow> nat \<Rightarrow> object \<Rightarrow> string \<Rightarrow> nat \<times> store" where
  "PgQueryBuilder_leftJoin s this other on =
     (let (qb, s1) = new_PgQueryBuilder s (connection (builders s ! this))
                       (js_spread (entity (builders s ! this)) other);
          s2 = set_sql s1 qb
                 (''SELECT * FROM '' @ quoted (tableName (entity (builders s1 ! this)))
                  @ '' LEFT JOIN '' @ quoted (tableName other) @ '' ON'');
          condition = join_condition (entity (builders s2 ! this)) other on
      in (qb, sql_append s2 qb condition))"

text \<open>\<^verbatim>\<open>where(condition1)\<close>; the \<^verbatim>\<open>console.log\<close> of the new builder is left out.\<close>

definition where_condition :: "object \<Rightarrow> string \<Rightarrow> string" where
  "where_condition this_entity condition1 =
     replace_global (CHR ''t'') (CHR ''.'') (quoted (tableName this_entity) @ ''.'') []
       condition1"

definition PgQueryBuilder_where :: "store \<Rightarrow> nat \<Rightarrow> string \<Rightarrow> nat \<times> store" where
  "PgQueryBuilder_where s this condition1 =
     (let (qb, s1) = new_PgQueryBuilder s (connection (builders s ! this))
                       (entity (builders s ! this));
          s2 = set_sql s1 qb (sql_of s1 this @ '' WHERE'');
          condition = where_condition (entity (builders s2 ! this)) condition1
      in (qb, sql_append s2 qb condition))"

datatype direction = Asc | Desc

text \<open>\<^verbatim>\<open>direction.toUpperCase()\<close> on \<^verbatim>\<open>"asc" | "desc"\<close>.\<close>

fun direction_upper :: "direction \<Rightarrow> string" where
  "direction_upper Asc = ''ASC''"
| "direction_upper Desc = ''DESC''"

definition PgQueryBuilder_orderBy :: "store \<Rightarrow> nat \<Rightarrow> string \<Rightarrow> direction \<Rightarrow> nat \<times> store" where
  "PgQueryBuilder_orderBy s this column dir =
     (let (qb, s1) = new_PgQueryBuilder s (connection (builders s ! this))
                       (entity (builders s ! this))
      in (qb, set_sql s1 qb
                (sql_of s1 this @ '' ORDER BY '' @ quoted column
                 @ '' '' @ direction_upper dir)))"

definition PgQueryBuilder_limit :: "store \<Rightarrow> nat \<Rightarrow> int \<Rightarrow> nat \<times> store" where
  "PgQueryBuilder_limit s this count =
     (let (qb, s1) = new_PgQueryBuilder s (connection (builders s ! this))
                       (entity (builders s ! this))
      in (qb, set_sql s1 qb (sql_of s1 this @ '' LIMIT '' @ Number_toString count)))"

definition PgQueryBuilder_offset :: "store \<Rightarrow> nat \<Rightarrow> int \<Rightarrow> nat \<times> store" where
  "PgQueryBuilder_offset s this count =
     (let (qb, s1) = new_PgQueryBuilder s (connection (builders s ! this))
                       (entity (builders s ! this))
      in (qb, set_sql s1 qb (sql_of s1 this @ '' OFFSET '' @ Number_toString count)))"

section \<open>Connections and transactions\<close>

text \<open>
  The \<^verbatim>\<open>pg.Client\<close> is an external collaborator. Its state is the list of calls made
  on it so far, oldest first; a driver is any function that answers a call given that
  history, with a result or with a rejection. An \<^verbatim>\<open>async\<close> function returns its
  result or rejection together with the client's new state.
\<close>

record QueryResult =
  rows :: "jsval list"
  rowCount :: int

datatype call =
    ClientConnect
  | ClientQuery string "jsval list option"
  | ClientEnd

type_synonym client = "call list"

type_synonym driver = "call list \<Rightarrow> call \<Rightarrow> js_error + QueryResult"

definition client_call :: "driver \<Rightarrow> call \<Rightarrow> client \<Rightarrow> (js_error + QueryResult) \<times> client" where
  "client_call drv c w = (drv w c, w @ [c])"

text \<open>\<^verbatim>\<open>PgConnection.query\<close>: connect, then query; a rejection is rethrown as it is.\<close>

definition PgConnection_query ::
  "driver \<Rightarrow> string \<Rightarrow> jsval list option \<Rightarrow> client \<Rightarrow> (js_error + QueryResult) \<times> client" where
  "PgConnection_query drv sqlText ps w =
     (case client_call drv ClientConnect w of
        (Inl e, w1) \<Rightarrow> (Inl e, w1)
      | (Inr _, w1) \<Rightarrow> client_call drv (ClientQuery sqlText ps) w1)"

definition PgConnection_beginTransaction ::
  "driver \<Rightarrow> client \<Rightarrow> (js_error + Connection) \<times> client" where
  "PgConnection_beginTransaction drv w =
     (case client_call drv (ClientQuery ''BEGIN'' None) w of
        (Inl e, w1) \<Rightarrow> (Inl e, w1)
      | (Inr _, w1) \<Rightarrow> (Inr PgTransaction, w1))"

definition PgConnection_close :: "driver \<Rightarrow> client \<Rightarrow> (js_error + unit) \<times> client" where
  "PgConnection_close drv w =
     (case client_call drv ClientEnd w of
        (Inl e, w1) \<Rightarrow> (Inl e, w1)
      | (Inr _, w1) \<Rightarrow> (Inr (), w1))"

text \<open>The transaction delegates to the connection it wraps, or throws.\<close>

definition PgTransaction_query ::
  "driver \<Rightarrow> string \<Rightarrow> jsval list option \<Rightarrow> client \<Rightarrow> (js_error + QueryResult) \<times> client" where
  "PgTransaction_query drv sqlText ps w = PgConnection_query drv sqlText ps w"

definition PgTransaction_beginTransaction ::
  "driver \<Rightarrow> client \<Rightarrow> (js_error + Connection) \<times> client" where
  "PgTransaction_beginTransaction drv w =
     (Inl (Error ''Cannot begin a nested transaction''), w)"

definition PgTransaction_commit :: "driver \<Rightarrow> client \<Rightarrow> (js_error + unit) \<times> client" where
  "PgTransaction_commit drv w =
     (case PgConnection_query drv ''COMMIT'' None w of
        (Inl e, w1) \<Rightarrow> (Inl e, w1)
      | (Inr _, w1) \<Rightarrow> (Inr (), w1))"

definition PgTransaction_rollback :: "driver \<Rightarrow> client \<Rightarrow> (js_error + unit) \<times> client" where
  "PgTransaction_rollback drv w =
     (case PgConnection_query drv ''ROLLBACK'' None w of
        (Inl e, w1) \<Rightarrow> (Inl e, w1)
      | (Inr _, w1) \<Rightarrow> (Inr (), w1))"

definition PgTransaction_close :: "driver \<Rightarrow> client \<Rightarrow> (js_error + unit) \<times> client" where
  "PgTransaction_close drv w = (Inl (Error ''Cannot close a transaction''), w)"

text \<open>\<^verbatim>\<open>connection.query\<close> through the \<^verbatim>\<open>Connection\<close> interface.\<close>

fun Connection_query ::
  "driver \<Rightarrow> Connection \<Rightarrow> string \<Rightarrow> jsval list option \<Rightarrow> client
     \<Rightarrow> (js_error + QueryResult) \<times> client" where
  "Connection_query drv PgConnection sqlText ps w = PgConnection_query drv sqlText ps w"
| "Connection_query drv PgTransaction sqlText ps w = PgTransaction_query drv sqlText ps w"

text \<open>\<^verbatim>\<open>beginTransaction\<close> and \<^verbatim>\<open>close\<close> through the \<^verbatim>\<open>Connection\<close> interface.\<close>

fun Connection_beginTransaction ::
  "driver \<Rightarrow> Connection \<Rightarrow> client \<Rightarrow> (js_error + Connection) \<times> client" where
  "Connection_beginTransaction drv PgConnection w = PgConnection_beginTransaction drv w"
| "Connection_beginTransaction drv PgTransaction w = PgTransaction_beginTransaction drv w"

fun Connection_close :: "driver \<Rightarrow> Connection \<Rightarrow> client \<Rightarrow> (js_error + unit) \<times> client" where
  "Connection_close drv PgConnection w = PgConnection_close drv w"
| "Connection_close drv PgTransaction w = PgTransaction_close drv w"

text \<open>\<^verbatim>\<open>execute()\<close>: sends the builder's own SQL and parameters, returns
  \<^verbatim>\<open>result.rows\<close>.\<close>

definition PgQueryBuilder_execute ::
  "driver \<Rightarrow> store \<Rightarrow> nat \<Rightarrow> client \<Rightarrow> (js_error + jsval list) \<times> client" where
  "PgQueryBuilder_execute drv s this w =
     (case Connection_query drv (connection (builders s ! this)) (sql_of s this)
             (Some (params_of s this)) w of
        (Inl e, w1) \<Rightarrow> (Inl e, w1)
      | (Inr result, w1) \<Rightarrow> (Inr (rows result), w1))"

section \<open>The repository\<close>

record PgRepository =
  repository_connection :: Connection
  repository_entity :: object

text \<open>\<^verbatim>\<open>findAll\<close> keeps the builder that \<^verbatim>\<open>select\<close> returns
  (\<^verbatim>\<open>qb = qb.select(...)\<close>) and executes it.\<close>

definition PgRepository_findAll ::
  "driver \<Rightarrow> PgRepository \<Rightarrow> store \<Rightarrow> client
     \<Rightarrow> (js_error + jsval list) \<times> store \<times> client" where
  "PgRepository_findAll drv repo s w =
     (let (qb, s1) = new_PgQueryBuilder s (repository_connection repo) (repository_entity repo)
      in case Object_keys (js_get (repository_entity repo) ''columns'') of
           Inl e \<Rightarrow> (Inl e, s1, w)
         | Inr keys \<Rightarrow>
             (let (qb', s2) = PgQueryBuilder_select s1 qb keys;
                  (result, w') = PgQueryBuilder_execute drv s2 qb' w
              in (result, s2, w')))"

text \<open>\<^verbatim>\<open>findById\<close> calls \<^verbatim>\<open>qb.select(...)\<close> and \<^verbatim>\<open>qb.where(...)\<close> as statements:
  the builders they return are dropped, and \<^verbatim>\<open>qb.execute()\<close> runs on the builder the
  constructor made. The predicate \<^verbatim>\<open>(t) => t.id === id\<close> reaches \<^verbatim>\<open>where\<close> as its
  source text, in which \<^verbatim>\<open>id\<close> is a name, so the argument \<open>id\<close> is not read.\<close>

definition PgRepository_findById ::
  "driver \<Rightarrow> PgRepository \<Rightarrow> jsval \<Rightarrow> store \<Rightarrow> client
     \<Rightarrow> (js_error + jsval) \<times> store \<times> client" where
  "PgRepository_findById drv repo ident s w =
     (let (qb, s1) = new_PgQueryBuilder s (repository_connection repo) (repository_entity repo)
      in case Object_keys (js_get (repository_entity repo) ''columns'') of
           Inl e \<Rightarrow> (Inl e, s1, w)
         | Inr keys \<Rightarrow>
             (let (_, s2) = PgQueryBuilder_select s1 qb keys;
                  (_, s3) = PgQueryBuilder_where s2 qb ''(t) => t.id === id''
              in case PgQueryBuilder_execute drv s3 qb w of
                   (Inl e, w') \<Rightarrow> (Inl e, s3, w')
                 | (Inr result, w') \<Rightarrow> (Inr (js_or (array_index result 0) Null), s3, w')))"

text \<open>\<^verbatim>\<open>delete\<close> drops the builders of \<^verbatim>\<open>qb.delete()\<close> and \<^verbatim>\<open>qb.where(...)\<close> in
  the same way, and reads \<^verbatim>\<open>rowCount\<close> from what \<^verbatim>\<open>execute\<close> returned, which is
  the array \<^verbatim>\<open>result.rows\<close>.\<close>

definition PgRepository_delete ::
  "driver \<Rightarrow> PgRepository \<Rightarrow> string \<Rightarrow> store \<Rightarrow> client
     \<Rightarrow> (js_error + jsval) \<times> store \<times> client" where
  "PgRepository_delete drv repo condition s w =
     (let (qb, s1) = new_PgQueryBuilder s (repository_connection repo) (repository_entity repo);
          (_, s2) = PgQueryBuilder_delete s1 qb;
          (_, s3) = PgQueryBuilder_where s2 qb condition
      in case PgQueryBuilder_execute drv s3 qb w of
           (Inl e, w') \<Rightarrow> (Inl e, s3, w')
         | (Inr result, w') \<Rightarrow> (Inr (array_get result ''rowCount''), s3, w'))"

section \<open>Column declarations\<close>

text \<open>
  The \<^verbatim>\<open>Column\<close> decorator appends one record to the column list of the metadata
  storage. The decorated object is a class prototype: \<open>class_ref\<close> is its
  \<^verbatim>\<open>constructor\<close>, \<open>members\<close> its properties.
\<close>

record ColumnOptions =
  option_name :: "string option"
  option_type :: "string option"

record ColumnMetadataArgs =
  target :: nat
  propertyName :: string
  type :: string

record js_prototype =
  class_ref :: nat
  members :: object

text \<open>\<^verbatim>\<open>options?.name\<close> and \<^verbatim>\<open>options?.type\<close>.\<close>

definition optional_name :: "ColumnOptions option \<Rightarrow> string option" where
  "optional_name options = (case options of None \<Rightarrow> None | Some opts \<Rightarrow> option_name opts)"

definition optional_type :: "ColumnOptions option \<Rightarrow> string option" where
  "optional_type options = (case options of None \<Rightarrow> None | Some opts \<Rightarrow> option_type opts)"

text \<open>
  The \<^verbatim>\<open>type\<close> expression is
  \<^verbatim>\<open>options?.type ?? typeof object[propertyName] == "string" ? "varchar(255)" : "int"\<close>.
  \<^verbatim>\<open>==\<close> binds tighter than \<^verbatim>\<open>??\<close>, and \<^verbatim>\<open>??\<close> tighter than \<^verbatim>\<open>? :\<close>, so
  JavaScript reads it as \<^verbatim>\<open>(options?.type ?? (typeof ... == "string")) ? ... : ...\<close>:
  the declared type, when there is one, is the condition of the conditional.
\<close>

definition Column_type :: "ColumnOptions option \<Rightarrow> jsval \<Rightarrow> string" where
  "Column_type options v =
     (let tested = (case optional_type options of
                      Some ty \<Rightarrow> Str ty
                    | None \<Rightarrow> Bool (js_typeof v = ''string''))
      in if js_truthy tested then ''varchar(255)'' else ''int'')"

definition Column ::
  "ColumnOptions option \<Rightarrow> js_prototype \<Rightarrow> string
     \<Rightarrow> ColumnMetadataArgs list \<Rightarrow> ColumnMetadataArgs list" where
  "Column options obj property storage_columns =
     storage_columns
     @ [\<lparr>target = class_ref obj,
         propertyName = (case optional_name options of Some n \<Rightarrow> n | None \<Rightarrow> property),
         type = Column_type options (js_get (members obj) property)\<rparr>]"

section \<open>The emitted text, described on the values alone\<close>

text \<open>
  The loops of \<^verbatim>\<open>insert\<close> and \<^verbatim>\<open>update\<close> only read the values of the cells, in
  order. \<open>defined_values\<close> are the values that are not \<^verbatim>\<open>undefined\<close>;
  \<open>cell_text cells m\<close> is what the specification says of the cell at position \<open>m\<close>:
  \<^verbatim>\<open>NULL\<close> for an undefined value, otherwise the placeholder whose number is one plus
  the number of defined values before it. \<open>values_text\<close>, \<open>rows_text\<close> and
  \<open>update_text\<close> run the loops on the values, \<open>n\<close> being the number of parameters
  pushed so far; they link the loops on the store to \<open>cell_text\<close>.
\<close>

definition defined_values :: "jsval list \<Rightarrow> jsval list" where
  "defined_values vs = filter (\<lambda>v. v \<noteq> Undefined) vs"

definition cell_text :: "jsval list \<Rightarrow> nat \<Rightarrow> string" where
  "cell_text cells m =
     (if cells ! m = Undefined then ''NULL''
      else ''$'' @ nat_toString (Suc (length (defined_values (take m cells)))))"

fun values_text :: "nat \<Rightarrow> jsval list \<Rightarrow> string list" where
  "values_text n [] = []"
| "values_text n (v # vs) =
     (if v = Undefined then ''NULL'' # values_text n vs
      else (''$'' @ nat_toString (Suc n)) # values_text (Suc n) vs)"

fun rows_text :: "nat \<Rightarrow> jsval list list \<Rightarrow> string" where
  "rows_text n [] = []"
| "rows_text n (vs # vss) =
     ''('' @ join '', '' (values_text n vs) @ '')''
     @ (if vss \<noteq> [] then '', '' else [])
     @ rows_text (n + length (defined_values vs)) vss"

fun update_text :: "nat \<Rightarrow> (string \<times> jsval) list \<Rightarrow> string" where
  "update_text n [] = []"
| "update_text n ((k, v) # kvs) =
     '' '' @ quoted k @ '' =''
     @ (if v = Undefined then '' NULL'' else '' $'' @ nat_toString (Suc n))
     @ (if kvs \<noteq> [] then '', '' else [])
     @ update_text (if v = Undefined then n else Suc n) kvs"

text \<open>The text \<^verbatim>\<open>insert\<close> and \<^verbatim>\<open>update\<close> write before their loops.\<close>

definition insert_header :: "object \<Rightarrow> string list \<Rightarrow> string" where
  "insert_header ent cols =
     ''INSERT INTO '' @ quoted (tableName ent)
     @ '' ('' @ join '', '' (map quoted cols) @ '') VALUES''"

definition update_header :: "object \<Rightarrow> string" where
  "update_header ent = ''UPDATE '' @ quoted (tableName ent) @ '' SET''"

section \<open>What a method call leaves in the store\<close>

text \<open>
  \<open>fresh_builder s conn ent text ps\<close> is the result of a call that allocates one array
  holding \<open>ps\<close> and one builder with the given fields, and returns that builder.
  \<open>store_extends s s'\<close> says that every builder and every array of \<open>s\<close> is in \<open>s'\<close>
  as it was. \<open>new_builder_of s this ent qb s'\<close> says that \<open>qb\<close> is a builder that did
  not exist in \<open>s\<close>, bound to the connection of \<open>this\<close> and to the entity \<open>ent\<close>,
  with an array of its own that did not exist in \<open>s\<close> either, and that \<open>this\<close> kept
  its SQL and its parameters.
\<close>

definition fresh_builder :: "store \<Rightarrow> Connection \<Rightarrow> object \<Rightarrow> string \<Rightarrow> jsval list \<Rightarrow> nat \<times> store" where
  "fresh_builder s conn ent text ps =
     (length (builders s),
      s\<lparr>arrays := arrays s @ [ps],
        builders := builders s
                 @ [\<lparr>connection = conn, entity = ent, sql = text, params = length (arrays s)\<rparr>]\<rparr>)"

definition store_extends :: "store \<Rightarrow> store \<Rightarrow> bool" where
  "store_extends s s' \<longleftrightarrow>
     take (length (builders s)) (builders s') = builders s
     \<and> take (length (arrays s)) (arrays s') = arrays s"

definition new_builder_of :: "store \<Rightarrow> nat \<Rightarrow> object \<Rightarrow> nat \<Rightarrow> store \<Rightarrow> bool" where
  "new_builder_of s this ent qb s' \<longleftrightarrow>
     qb = length (builders s)
     \<and> qb < length (builders s')
     \<and> connection (builders s' ! qb) = connection (builders s ! this)
     \<and> entity (builders s' ! qb) = ent
     \<and> params (builders s' ! qb) = length (arrays s)
     \<and> length (arrays s) < length (arrays s')
     \<and> store_extends s s'
     \<and> sql_of s' this = sql_of s this
     \<and> params_of s' this = params_of s this"

text \<open>Replacement of every occurrence of two characters by a fixed text, as
  \<^verbatim>\<open>replace\<close> does when the replacement has no \<^verbatim>\<open>$\<close> in it.\<close>

fun replace_plain :: "char \<Rightarrow> char \<Rightarrow> string \<Rightarrow> string \<Rightarrow> string" where
  "replace_plain a b repl (c # d # rest) =
     (if c = a \<and> d = b then repl @ replace_plain a b repl rest
      else c # replace_plain a b repl (d # rest))"
| "replace_plain a b repl cs = cs"

section \<open>Inputs used in the examples\<close>

text \<open>A driver that accepts every call and reports no rows.\<close>

definition accepting :: driver where
  "accepting w c = Inr \<lparr>rows = [], rowCount = 0\<rparr>"

text \<open>An entity, a store holding one builder for it, and rows and columns to write.\<close>

definition users :: object where
  "users = [(''tableName'', Str ''users''),
            (''columns'', Obj [(''id'', Str ''int''), (''name'', Str ''varchar(255)''),
                               (''email'', Str ''varchar(255)'')])]"

definition store0 :: store where
  "store0 = \<lparr>arrays = [[]],
             builders = [\<lparr>connection = PgConnection, entity = users, sql = [], params = 0\<rparr>]\<rparr>"

definition rows_all_defined :: "object list" where
  "rows_all_defined =
     [[(''name'', Str ''A''), (''email'', Str ''a@x.com'')],
      [(''name'', Str ''B''), (''email'', Str ''b@x.com'')]]"

definition rows_one_undefined :: "object list" where
  "rows_one_undefined =
     [[(''name'', Str ''A''), (''email'', Str ''a@x.com'')],
      [(''name'', Str ''B''), (''email'', Undefined)]]"

definition rows_inherited_constructor :: "object list" where
  "rows_inherited_constructor = [[(''constructor'', Str ''x'')], []]"

definition columns_one_undefined :: object where
  "columns_one_undefined = [(''name'', Str ''A''), (''email'', Undefined), (''id'', Num 7)]"

text \<open>More entities, a store whose second builder holds a \<^verbatim>\<open>DELETE\<close> statement, one
  whose second builder holds an \<^verbatim>\<open>UPDATE\<close> statement with its parameter, a repository
  on an empty store, and a driver that reports three affected rows.\<close>

definition comments :: object where
  "comments = [(''tableName'', Str ''comments''),
               (''columns'', Obj [(''id'', Str ''int''), (''content'', Str ''text''),
                                  (''postId'', Str ''int'')])]"

definition store_delete :: store where
  \<open>store_delete =
     \<lparr>arrays = [[], []],
      builders = [\<lparr>connection = PgConnection, entity = users, sql = [], params = 0\<rparr>,
                  \<lparr>connection = PgConnection, entity = users,
                   sql = ''DELETE FROM "users"'', params = 1\<rparr>]\<rparr>\<close>

definition store_update :: store where
  \<open>store_update =
     \<lparr>arrays = [[], [Str ''A'']],
      builders = [\<lparr>connection = PgConnection, entity = users, sql = [], params = 0\<rparr>,
                  \<lparr>connection = PgConnection, entity = users,
                   sql = ''UPDATE "users" SET "name" = $1'', params = 1\<rparr>]\<rparr>\<close>

definition posts :: object where
  "posts = [(''tableName'', Str ''posts''),
            (''columns'', Obj [(''id'', Str ''int''), (''authorId'', Str ''int'')])]"

definition users_repository :: PgRepository where
  "users_repository = \<lparr>repository_connection = PgConnection, repository_entity = users\<rparr>"

definition empty_store :: store where
  "empty_store = \<lparr>arrays = [], builders = []\<rparr>"

definition three_rows_affected :: driver where
  "three_rows_affected w c = Inr \<lparr>rows = [], rowCount = 3\<rparr>"

section \<open>Transactions\<close>

lemma PgConnection_beginTransaction_tx:
  "PgConnection_beginTransaction drv w0 = (Inr tx, w1) \<Longrightarrow> tx = PgTransaction"
  by (auto simp: PgConnection_beginTransaction_def split: prod.splits sum.splits)

text \<open>
  Claim C8. A transaction obtained from \<^verbatim>\<open>PgConnection.beginTransaction\<close> rejects
  \<^verbatim>\<open>beginTransaction\<close> and \<^verbatim>\<open>close\<close> at once, each with its own message, in every
  state \<open>w\<close> of the client. Neither call reaches the client: the state they leave is
  \<open>w\<close>, so a \<^verbatim>\<open>query\<close>, \<^verbatim>\<open>commit\<close> or \<^verbatim>\<open>rollback\<close> that follows is delegated
  to the connection exactly as it would have been without the failed call.
\<close>

theorem transaction_rejects_begin_and_close:
  assumes "PgConnection_beginTransaction drv w0 = (Inr tx, w1)"
  shows "Connection_beginTransaction drv tx w
           = (Inl (Error ''Cannot begin a nested transaction''), w)
       \<and> Connection_close drv tx w = (Inl (Error ''Cannot close a transaction''), w)
       \<and> Connection_query drv tx q ps (snd (Connection_beginTransaction drv tx w))
           = PgConnection_query drv q ps w
       \<and> Connection_query drv tx q ps (snd (Connection_close drv tx w))
           = PgConnection_query drv q ps w
       \<and> snd (PgTransaction_commit drv (snd (Connection_close drv tx w)))
           = snd (PgConnection_query drv ''COMMIT'' None w)
       \<and> snd (PgTransaction_rollback drv (snd (Connection_beginTransaction drv tx w)))
           = snd (PgConnection_query drv ''ROLLBACK'' None w)"
proof -
  have tx: "tx = PgTransaction"
    using assms by (rule PgConnection_beginTransaction_tx)
  show ?thesis
    unfolding tx
    by (simp add: PgTransaction_beginTransaction_def PgTransaction_close_def
        PgTransaction_query_def PgTransaction_commit_def PgTransaction_rollback_def
        split: prod.splits sum.splits)
qed

theorem transaction_rejects_begin_and_close_witness:
  "PgConnection_beginTransaction accepting [] = (Inr PgTransaction, [ClientQuery ''BEGIN'' None])
   \<and> Connection_beginTransaction accepting PgTransaction [ClientQuery ''BEGIN'' None]
       = (Inl (Error ''Cannot begin a nested transaction''), [ClientQuery ''BEGIN'' None])
   \<and> Connection_close accepting PgTransaction [ClientQuery ''BEGIN'' None]
       = (Inl (Error ''Cannot close a transaction''), [ClientQuery ''BEGIN'' None])
   \<and> snd (PgTransaction_commit accepting
            (snd (Connection_close accepting PgTransaction [ClientQuery ''BEGIN'' None])))
       = [ClientQuery ''BEGIN'' None, ClientConnect, ClientQuery ''COMMIT'' None]"
proof -
  have h: "PgConnection_beginTransaction accepting []
             = (Inr PgTransaction, [ClientQuery ''BEGIN'' None])"
    by (simp add: PgConnection_beginTransaction_def client_call_def accepting_def)
  have q: "snd (PgConnection_query accepting ''COMMIT'' None [ClientQuery ''BEGIN'' None])
             = [ClientQuery ''BEGIN'' None, ClientConnect, ClientQuery ''COMMIT'' None]"
    by (simp add: PgConnection_query_def client_call_def accepting_def)
  note t = transaction_rejects_begin_and_close
             [OF h, of "[ClientQuery ''BEGIN'' None]" "[]" None]
  from t have a: "Connection_beginTransaction accepting PgTransaction [ClientQuery ''BEGIN'' None]
       = (Inl (Error ''Cannot begin a nested transaction''), [ClientQuery ''BEGIN'' None])"
    by blast
  from t have b: "Connection_close accepting PgTransaction [ClientQuery ''BEGIN'' None]
       = (Inl (Error ''Cannot close a transaction''), [ClientQuery ''BEGIN'' None])"
    by blast
  from t have c: "snd (PgTransaction_commit accepting
            (snd (Connection_close accepting PgTransaction [ClientQuery ''BEGIN'' None])))
       = snd (PgConnection_query accepting ''COMMIT'' None [ClientQuery ''BEGIN'' None])"
    by blast
  from c q have d: "snd (PgTransaction_commit accepting
            (snd (Connection_close accepting PgTransaction [ClientQuery ''BEGIN'' None])))
       = [ClientQuery ''BEGIN'' None, ClientConnect, ClientQuery ''COMMIT'' None]"
    by (rule trans)
  from h a b d show ?thesis by blast
qed

section \<open>Insert without rows\<close>

text \<open>
  Claim C10. \<^verbatim>\<open>insert\<close> reads \<^verbatim>\<open>rows[0]\<close> without a check. With no rows that
  element is \<^verbatim>\<open>undefined\<close> and the call ends in the \<^verbatim>\<open>TypeError\<close> of
  \<^verbatim>\<open>Object.keys\<close>; with at least one row the element is the first row and the call
  returns the new builder.
\<close>

theorem insert_defined_iff_row:
  "rows_index [] 0 = Undefined
   \<and> fst (PgQueryBuilder_insert s this [])
       = Inl (TypeError ''Cannot convert undefined or null to object'')
   \<and> (rs \<noteq> [] \<longrightarrow>
        rows_index rs 0 = Obj (rs ! 0)
        \<and> fst (PgQueryBuilder_insert s this rs) = Inr (length (builders s)))"
  by (cases rs)
     (simp_all add: PgQueryBuilder_insert_def rows_index_def new_PgQueryBuilder_def Let_def)

theorem insert_defined_iff_row_witness:
  "[[(''name'', Str ''A'')]] \<noteq> []
   \<and> fst (PgQueryBuilder_insert \<lparr>arrays = [[]], builders =
        [\<lparr>connection = PgConnection, entity = [(''tableName'', Str ''users'')], sql = [], params = 0\<rparr>]\<rparr>
        0 [[(''name'', Str ''A'')]]) = Inr 1"
  using insert_defined_iff_row [of "\<lparr>arrays = [[]], builders =
        [\<lparr>connection = PgConnection, entity = [(''tableName'', Str ''users'')], sql = [], params = 0\<rparr>]\<rparr>"
        0 "[[(''name'', Str ''A'')]]"]
  by simp

section \<open>The recorded column type\<close>

text \<open>
  Claim C7 says that a declared type is the recorded type. The code records
  \<^verbatim>\<open>varchar(255)\<close> for the declaration \<^verbatim>\<open>Column({name: "id", type: "int"})\<close>, and
  for every declared type that is not the empty string: the declared type is only
  tested for truthiness. Without a declared type the recorded type follows the kind of
  the property's value, as the claim says.
\<close>

theorem Column_records_varchar_for_declared_int:
  "Column (Some \<lparr>option_name = Some ''id'', option_type = Some ''int''\<rparr>) obj ''id'' []
     = [\<lparr>target = class_ref obj, propertyName = ''id'', type = ''varchar(255)''\<rparr>]
   \<and> Column_type (Some \<lparr>option_name = n, option_type = Some ty\<rparr>) v
       = (if ty = [] then ''int'' else ''varchar(255)'')
   \<and> Column_type (Some \<lparr>option_name = n, option_type = None\<rparr>) v
       = (if js_typeof v = ''string'' then ''varchar(255)'' else ''int'')
   \<and> Column_type None v
       = (if js_typeof v = ''string'' then ''varchar(255)'' else ''int'')"
  by (simp add: Column_def Column_type_def optional_name_def optional_type_def)

section \<open>The store\<close>

lemma new_PgQueryBuilder_eq:
  "new_PgQueryBuilder s c e =
     (length (builders s),
      s\<lparr>arrays := arrays s @ [[]],
        builders := builders s @ [\<lparr>connection = c, entity = e, sql = [], params = length (arrays s)\<rparr>]\<rparr>)"
  by (simp add: new_PgQueryBuilder_def Let_def)

lemma arrays_set_sql [simp]: "arrays (set_sql s qb v) = arrays s"
  by (simp add: set_sql_def)

lemma length_builders_set_sql [simp]: "length (builders (set_sql s qb v)) = length (builders s)"
  by (simp add: set_sql_def)

lemma params_set_sql [simp]: "params (builders (set_sql s qb v) ! i) = params (builders s ! i)"
  by (cases "qb < length (builders s)"; cases "i = qb") (simp_all add: set_sql_def list_update_beyond)

lemma connection_set_sql [simp]:
  "connection (builders (set_sql s qb v) ! i) = connection (builders s ! i)"
  by (cases "qb < length (builders s)"; cases "i = qb") (simp_all add: set_sql_def list_update_beyond)

lemma entity_set_sql [simp]: "entity (builders (set_sql s qb v) ! i) = entity (builders s ! i)"
  by (cases "qb < length (builders s)"; cases "i = qb") (simp_all add: set_sql_def list_update_beyond)

lemma sql_of_set_sql_same [simp]:
  "qb < length (builders s) \<Longrightarrow> sql_of (set_sql s qb v) qb = v"
  by (simp add: set_sql_def sql_of_def)

lemma sql_of_set_sql_other [simp]:
  "i \<noteq> qb \<Longrightarrow> sql_of (set_sql s qb v) i = sql_of s i"
  by (simp add: set_sql_def sql_of_def)

lemma params_of_set_sql [simp]: "params_of (set_sql s qb v) i = params_of s i"
  by (simp add: params_of_def)

lemma set_sql_set_sql [simp]: "set_sql (set_sql s qb v) qb v' = set_sql s qb v'"
  by (cases "qb < length (builders s)") (simp_all add: set_sql_def list_update_beyond)

lemma sql_append_eq:
  "qb < length (builders s) \<Longrightarrow> sql_append (set_sql s qb v) qb t = set_sql s qb (v @ t)"
  by (simp add: sql_append_def)

lemma builders_params_push [simp]: "builders (params_push s qb v) = builders s"
  by (simp add: params_push_def Let_def)

section \<open>The loops of insert and update\<close>

lemma defined_values_simps [simp]:
  "defined_values [] = []"
  "defined_values (v # vs) = (if v = Undefined then defined_values vs else v # defined_values vs)"
  "defined_values (xs @ ys) = defined_values xs @ defined_values ys"
  by (simp_all add: defined_values_def)

lemma insert_values_eq:
  "params (builders s ! qb) < length (arrays s) \<Longrightarrow>
   insert_values s qb row cols =
     (values_text (length (params_of s qb)) (map (js_get row) cols),
      s\<lparr>arrays := (arrays s)[params (builders s ! qb) :=
                      params_of s qb @ defined_values (map (js_get row) cols)]\<rparr>)"
proof (induction cols arbitrary: s)
  case Nil
  then show ?case by (simp add: params_of_def)
next
  case (Cons c cols)
  let ?p = "params (builders s ! qb)"
  show ?case
  proof (cases "js_get row c = Undefined")
    case True
    with Cons show ?thesis by simp
  next
    case False
    let ?s1 = "params_push s qb (js_get row c)"
    have s1: "?s1 = s\<lparr>arrays := (arrays s)[?p := params_of s qb @ [js_get row c]]\<rparr>"
      by (simp add: params_push_def Let_def params_of_def)
    have p1: "params (builders ?s1 ! qb) < length (arrays ?s1)"
      using Cons.prems by (simp add: s1)
    have po: "params_of ?s1 qb = params_of s qb @ [js_get row c]"
      using Cons.prems by (simp add: s1 params_of_def)
    show ?thesis
      using False Cons.IH [OF p1] Cons.prems
      by (simp add: po Let_def) (simp add: s1)
  qed
qed

lemma insert_rows_eq:
  "qb < length (builders s) \<Longrightarrow> params (builders s ! qb) < length (arrays s) \<Longrightarrow>
   insert_rows s qb cols rs =
     s\<lparr>arrays := (arrays s)[params (builders s ! qb) :=
                     params_of s qb
                     @ defined_values (concat (map (\<lambda>row. map (js_get row) cols) rs))],
       builders := (builders s)[qb := (builders s ! qb)
                     \<lparr>sql := sql_of s qb
                        @ rows_text (length (params_of s qb))
                            (map (\<lambda>row. map (js_get row) cols) rs)\<rparr>]\<rparr>"
proof (induction rs arbitrary: s)
  case Nil
  then show ?case by (simp add: params_of_def sql_of_def)
next
  case (Cons r rs)
  let ?p = "params (builders s ! qb)"
  let ?vs = "map (js_get r) cols"
  let ?s1 = "s\<lparr>arrays := (arrays s)[?p := params_of s qb @ defined_values ?vs]\<rparr>"
  let ?row = "''('' @ join '', '' (values_text (length (params_of s qb)) ?vs) @ '')''
              @ (if rs \<noteq> [] then '', '' else [])"
  let ?s3 = "set_sql ?s1 qb (sql_of s qb @ ?row)"
  have step: "insert_rows s qb cols (r # rs) = insert_rows ?s3 qb cols rs"
    using Cons.prems
    by (simp add: insert_values_eq sql_append_def sql_of_def set_sql_def)
  have q3: "qb < length (builders ?s3)"
    using Cons.prems by simp
  have p3: "params (builders ?s3 ! qb) < length (arrays ?s3)"
    using Cons.prems by simp
  have po3: "params_of ?s3 qb = params_of s qb @ defined_values ?vs"
    using Cons.prems by (simp add: params_of_def)
  have so3: "sql_of ?s3 qb = sql_of s qb @ ?row"
    using Cons.prems by simp
  show ?case
    unfolding step Cons.IH [OF q3 p3] po3 so3
    using Cons.prems
    by (simp add: set_sql_def)
qed

lemma PgQueryBuilder_insert_eq:
  assumes "this < length (builders s)"
  shows "PgQueryBuilder_insert s this (r # rs) =
     (Inr (length (builders s)),
      s\<lparr>arrays := arrays s
                 @ [defined_values
                      (concat (map (\<lambda>row. map (js_get row) (object_keys r)) (r # rs)))],
        builders := builders s
                 @ [\<lparr>connection = connection (builders s ! this),
                     entity = entity (builders s ! this),
                     sql = insert_header (entity (builders s ! this)) (object_keys r)
                           @ rows_text 0 (map (\<lambda>row. map (js_get row) (object_keys r)) (r # rs)),
                     params = length (arrays s)\<rparr>]\<rparr>)"
proof -
  let ?new = "\<lparr>connection = connection (builders s ! this),
               entity = entity (builders s ! this), sql = [], params = length (arrays s)\<rparr>"
  let ?s1 = "s\<lparr>arrays := arrays s @ [[]], builders := builders s @ [?new]\<rparr>"
  let ?qb = "length (builders s)"
  let ?h = "insert_header (entity (builders s ! this)) (object_keys r)"
  let ?s2 = "set_sql ?s1 ?qb ?h"
  have q: "?qb < length (builders ?s2)" by simp
  have p: "params (builders ?s2 ! ?qb) < length (arrays ?s2)" by simp
  have po: "params_of ?s2 ?qb = []" by (simp add: params_of_def)
  have so: "sql_of ?s2 ?qb = ?h" by simp
  have pp: "params (builders ?s2 ! ?qb) = length (arrays s)" by simp
  have e: "entity (builders ?s1 ! this) = entity (builders s ! this)"
    using assms by (simp add: nth_append)
  have "PgQueryBuilder_insert s this (r # rs) = (Inr ?qb, insert_rows ?s2 ?qb (object_keys r) (r # rs))"
    unfolding PgQueryBuilder_insert_def new_PgQueryBuilder_eq
    using e by (simp add: rows_index_def insert_header_def)
  also have "insert_rows ?s2 ?qb (object_keys r) (r # rs) =
      s\<lparr>arrays := arrays s
                 @ [defined_values
                      (concat (map (\<lambda>row. map (js_get row) (object_keys r)) (r # rs)))],
        builders := builders s
                 @ [\<lparr>connection = connection (builders s ! this),
                     entity = entity (builders s ! this),
                     sql = ?h @ rows_text 0 (map (\<lambda>row. map (js_get row) (object_keys r)) (r # rs)),
                     params = length (arrays s)\<rparr>]\<rparr>"
    unfolding insert_rows_eq [OF q p] po so pp
    by (simp add: set_sql_def)
  finally show ?thesis .
qed

lemma update_keys_eq:
  "qb < length (builders s) \<Longrightarrow> params (builders s ! qb) < length (arrays s) \<Longrightarrow>
   update_keys s qb columns keys =
     s\<lparr>arrays := (arrays s)[params (builders s ! qb) :=
                     params_of s qb @ defined_values (map (js_get columns) keys)],
       builders := (builders s)[qb := (builders s ! qb)
                     \<lparr>sql := sql_of s qb
                        @ update_text (length (params_of s qb))
                            (map (\<lambda>k. (k, js_get columns k)) keys)\<rparr>]\<rparr>"
proof (induction keys arbitrary: s)
  case Nil
  then show ?case by (simp add: params_of_def sql_of_def)
next
  case (Cons k keys)
  let ?p = "params (builders s ! qb)"
  let ?v = "js_get columns k"
  let ?n = "length (params_of s qb)"
  let ?s1 = "s\<lparr>arrays := (arrays s)[?p := params_of s qb @ defined_values [?v]]\<rparr>"
  let ?txt = "'' '' @ quoted k @ '' =''
     @ (if ?v = Undefined then '' NULL'' else '' $'' @ nat_toString (Suc ?n))
     @ (if keys \<noteq> [] then '', '' else [])"
  let ?s3 = "set_sql ?s1 qb (sql_of s qb @ ?txt)"
  have step: "update_keys s qb columns (k # keys) = update_keys ?s3 qb columns keys"
    using Cons.prems
    by (simp add: sql_append_def sql_of_def set_sql_def params_push_def params_of_def Let_def)
  have q3: "qb < length (builders ?s3)"
    using Cons.prems by simp
  have p3: "params (builders ?s3 ! qb) < length (arrays ?s3)"
    using Cons.prems by simp
  have po3: "params_of ?s3 qb = params_of s qb @ defined_values [?v]"
    using Cons.prems by (simp add: params_of_def)
  have so3: "sql_of ?s3 qb = sql_of s qb @ ?txt"
    using Cons.prems by simp
  show ?case
    unfolding step Cons.IH [OF q3 p3] po3 so3
    using Cons.prems
    by (simp add: set_sql_def)
qed

lemma PgQueryBuilder_update_eq:
  assumes "this < length (builders s)"
  shows "PgQueryBuilder_update s this columns =
     (length (builders s),
      s\<lparr>arrays := arrays s @ [defined_values (map (js_get columns) (object_keys columns))],
        builders := builders s
                 @ [\<lparr>connection = connection (builders s ! this),
                     entity = entity (builders s ! this),
                     sql = update_header (entity (builders s ! this))
                           @ update_text 0 (map (\<lambda>k. (k, js_get columns k)) (object_keys columns)),
                     params = length (arrays s)\<rparr>]\<rparr>)"
proof -
  let ?new = "\<lparr>connection = connection (builders s ! this),
               entity = entity (builders s ! this), sql = [], params = length (arrays s)\<rparr>"
  let ?s1 = "s\<lparr>arrays := arrays s @ [[]], builders := builders s @ [?new]\<rparr>"
  let ?qb = "length (builders s)"
  let ?h = "update_header (entity (builders s ! this))"
  let ?s2 = "set_sql ?s1 ?qb ?h"
  have q: "?qb < length (builders ?s2)" by simp
  have p: "params (builders ?s2 ! ?qb) < length (arrays ?s2)" by simp
  have po: "params_of ?s2 ?qb = []" by (simp add: params_of_def)
  have so: "sql_of ?s2 ?qb = ?h" by simp
  have pp: "params (builders ?s2 ! ?qb) = length (arrays s)" by simp
  have e: "entity (builders ?s1 ! this) = entity (builders s ! this)"
    using assms by (simp add: nth_append)
  have "PgQueryBuilder_update s this columns
          = (?qb, update_keys ?s2 ?qb columns (object_keys columns))"
    unfolding PgQueryBuilder_update_def new_PgQueryBuilder_eq
    using e by (simp add: update_header_def)
  also have "update_keys ?s2 ?qb columns (object_keys columns) =
      s\<lparr>arrays := arrays s @ [defined_values (map (js_get columns) (object_keys columns))],
        builders := builders s
                 @ [\<lparr>connection = connection (builders s ! this),
                     entity = entity (builders s ! this),
                     sql = ?h @ update_text 0 (map (\<lambda>k. (k, js_get columns k)) (object_keys columns)),
                     params = length (arrays s)\<rparr>]\<rparr>"
    unfolding update_keys_eq [OF q p] po so pp
    by (simp add: set_sql_def)
  finally show ?thesis .
qed

subsection \<open>From the loops to the cells\<close>

lemma join_Cons: "join sep (x # xs) = x @ (if xs = [] then [] else sep @ join sep xs)"
  by (cases xs) simp_all

lemma cell_text_append: "m < length xs \<Longrightarrow> cell_text (xs @ ys) m = cell_text xs m"
  by (simp add: cell_text_def nth_append)

lemma values_text_cells:
  "n = length (defined_values pre) \<Longrightarrow>
   values_text n vs = map (\<lambda>j. cell_text (pre @ vs) (length pre + j)) [0..<length vs]"
proof (induction vs arbitrary: pre n)
  case Nil
  then show ?case by simp
next
  case (Cons v vs)
  have here: "cell_text (pre @ v # vs) (length pre)
      = (if v = Undefined then ''NULL'' else ''$'' @ nat_toString (Suc n))"
    using Cons.prems by (simp add: cell_text_def)
  have n': "(if v = Undefined then n else Suc n) = length (defined_values (pre @ [v]))"
    using Cons.prems by simp
  have rest: "values_text (if v = Undefined then n else Suc n) vs
      = map (\<lambda>j. cell_text (pre @ v # vs) (length pre + Suc j)) [0..<length vs]"
    using Cons.IH [OF n'] by simp
  show ?case
    using here rest by (cases "v = Undefined") (simp_all add: map_upt_Suc del: upt_Suc)
qed

lemma rows_text_cells:
  "n = length (defined_values pre) \<Longrightarrow> \<forall>vs\<in>set vss. length vs = K \<Longrightarrow>
   rows_text n vss =
     join '', ''
       (map (\<lambda>i. ''('' @ join '', ''
                      (map (\<lambda>j. cell_text (pre @ concat vss) (length pre + i * K + j)) [0..<K])
                    @ '')'')
          [0..<length vss])"
proof (induction vss arbitrary: pre n)
  case Nil
  then show ?case by simp
next
  case (Cons vs vss)
  have len: "length vs = K" using Cons.prems by simp
  have first: "values_text n vs
      = map (\<lambda>j. cell_text (pre @ concat (vs # vss)) (length pre + 0 * K + j)) [0..<K]"
  proof -
    have "values_text n vs = map (\<lambda>j. cell_text (pre @ vs) (length pre + j)) [0..<K]"
      using values_text_cells [OF Cons.prems(1), of vs] len by simp
    also have "\<dots> = map (\<lambda>j. cell_text ((pre @ vs) @ concat vss) (length pre + j)) [0..<K]"
      using len by (simp add: cell_text_append del: append_assoc)
    finally show ?thesis by simp
  qed
  have n': "n + length (defined_values vs) = length (defined_values (pre @ vs))"
    using Cons.prems by simp
  have all: "\<forall>vs\<in>set vss. length vs = K" using Cons.prems by simp
  have rest: "rows_text (n + length (defined_values vs)) vss
      = join '', ''
          (map (\<lambda>i. ''('' @ join '', ''
                 (map (\<lambda>j. cell_text (pre @ concat (vs # vss)) (length pre + Suc i * K + j)) [0..<K])
               @ '')'')
            [0..<length vss])"
    using Cons.IH [OF n' all] len by (simp add: add.assoc add.commute add.left_commute)
  show ?case
    unfolding rows_text.simps first rest
    by (simp add: map_upt_Suc join_Cons del: upt_Suc)
qed

lemma update_text_cells:
  "n = length (defined_values pre) \<Longrightarrow>
   update_text n kvs =
     concat (map (\<lambda>i. '' '' @ quoted (fst (kvs ! i)) @ '' = ''
                       @ cell_text (pre @ map snd kvs) (length pre + i)
                       @ (if Suc i < length kvs then '', '' else []))
               [0..<length kvs])"
proof (induction kvs arbitrary: pre n)
  case Nil
  then show ?case by simp
next
  case (Cons kv kvs)
  obtain k v where kv: "kv = (k, v)" by (cases kv)
  have here: "cell_text (pre @ v # map snd kvs) (length pre)
      = (if v = Undefined then ''NULL'' else ''$'' @ nat_toString (Suc n))"
    using Cons.prems by (simp add: cell_text_def)
  have n': "(if v = Undefined then n else Suc n) = length (defined_values (pre @ [v]))"
    using Cons.prems by simp
  have rest: "update_text (if v = Undefined then n else Suc n) kvs
      = concat (map (\<lambda>i. '' '' @ quoted (fst (kvs ! i)) @ '' = ''
                       @ cell_text (pre @ v # map snd kvs) (length pre + Suc i)
                       @ (if Suc i < length kvs then '', '' else []))
               [0..<length kvs])"
    using Cons.IH [OF n'] by simp
  show ?case
    unfolding kv update_text.simps rest
    using here by (cases "v = Undefined"; cases "kvs = []") (simp_all add: map_upt_Suc del: upt_Suc)
qed

lemma length_concat_uniform:
  "\<forall>xs\<in>set xss. length xs = K \<Longrightarrow> length (concat xss) = length xss * K"
  by (induction xss) simp_all

lemma nth_concat_uniform:
  "\<forall>xs\<in>set xss. length xs = K \<Longrightarrow> i < length xss \<Longrightarrow> j < K \<Longrightarrow>
   concat xss ! (i * K + j) = xss ! i ! j"
proof (induction xss arbitrary: i)
  case Nil
  then show ?case by simp
next
  case (Cons xs xss)
  show ?case
  proof (cases i)
    case 0
    with Cons.prems show ?thesis by (simp add: nth_append)
  next
    case (Suc i')
    with Cons.prems have "concat xss ! (i' * K + j) = xss ! i' ! j"
      by (intro Cons.IH) simp_all
    with Suc Cons.prems show ?thesis by (simp add: nth_append)
  qed
qed

lemma index_in_range: "i < N \<Longrightarrow> j < K \<Longrightarrow> i * K + j < N * (K::nat)"
proof -
  assume a: "i < N" "j < K"
  then have "i * K + j < Suc i * K" by simp
  also have "\<dots> \<le> N * K" using a by (intro mult_le_mono1) simp
  finally show ?thesis .
qed

lemma cell_text_all_defined:
  "Undefined \<notin> set cells \<Longrightarrow> m < length cells \<Longrightarrow>
   cell_text cells m = ''$'' @ nat_toString (Suc m)"
proof -
  assume a: "Undefined \<notin> set cells" "m < length cells"
  then have "cells ! m \<noteq> Undefined" by (metis nth_mem)
  moreover have "defined_values (take m cells) = take m cells"
    unfolding defined_values_def using a(1) by (intro filter_True) (auto dest: in_set_takeD)
  ultimately show ?thesis using a(2) by (simp add: cell_text_def)
qed

lemma js_get_defined:
  "c \<in> set (object_keys row) \<Longrightarrow> Undefined \<notin> snd ` set row \<Longrightarrow> js_get row c \<noteq> Undefined"
proof -
  assume a: "c \<in> set (object_keys row)" "Undefined \<notin> snd ` set row"
  then obtain v where v: "map_of row c = Some v"
    by (cases "map_of row c") (auto simp: object_keys_def map_of_eq_None_iff)
  then have "(c, v) \<in> set row" by (rule map_of_SomeD)
  then have "v \<in> snd ` set row" by force
  with a(2) have "v \<noteq> Undefined" by metis
  with v show ?thesis by (simp add: js_get_def)
qed

lemmas eval_simps =
  store0_def users_def tableName_def js_get_def quoted_def nat_toString_def
  decimal_digits.simps digit_char_def object_keys_def

lemma insert_one_undefined:
  \<open>PgQueryBuilder_insert store0 0 rows_one_undefined =
     (Inr 1,
      \<lparr>arrays = [[], [Str ''A'', Str ''a@x.com'', Str ''B'']],
       builders =
         [\<lparr>connection = PgConnection, entity = users, sql = [], params = 0\<rparr>,
          \<lparr>connection = PgConnection, entity = users,
           sql = ''INSERT INTO "users" ("name", "email") VALUES($1, $2), ($3, NULL)'',
           params = 1\<rparr>]\<rparr>)\<close>
proof -
  have h: "0 < length (builders store0)" by (simp add: store0_def)
  show ?thesis
    unfolding rows_one_undefined_def PgQueryBuilder_insert_eq [OF h]
    by (simp add: eval_simps insert_header_def)
qed

text \<open>A row without the column \<^verbatim>\<open>constructor\<close> inherits a value for it, which is
  defined: it takes a placeholder and is pushed.\<close>

lemma insert_inherited_constructor:
  \<open>PgQueryBuilder_insert store0 0 rows_inherited_constructor =
     (Inr 1,
      \<lparr>arrays = [[], [Str ''x'', NativeFunction ''Object'']],
       builders =
         [\<lparr>connection = PgConnection, entity = users, sql = [], params = 0\<rparr>,
          \<lparr>connection = PgConnection, entity = users,
           sql = ''INSERT INTO "users" ("constructor") VALUES($1), ($2)'',
           params = 1\<rparr>]\<rparr>)\<close>
proof -
  have h: "0 < length (builders store0)" by (simp add: store0_def)
  show ?thesis
    unfolding rows_inherited_constructor_def PgQueryBuilder_insert_eq [OF h]
    by (simp add: eval_simps insert_header_def inherited_def)
qed

section \<open>Placeholders of insert and update\<close>

text \<open>
  Claim C1. When \<^verbatim>\<open>insert\<close> is given \<open>N \<ge> 1\<close> rows that all have the key set of the
  first row, \<open>K\<close> columns, and no undefined value, it returns a new builder whose SQL
  is the \<^verbatim>\<open>INSERT\<close> head followed by one \<^verbatim>\<open>VALUES\<close> list of \<open>N\<close> rows joined by
  \<^verbatim>\<open>", "\<close>, the cell of row \<open>i\<close> and column \<open>j\<close> being the placeholder
  \<open>$(i * K + j + 1)\<close>; its parameter list has length \<open>N * K\<close>, and the parameter at
  position \<open>i * K + j\<close> is the value of that cell.
\<close>

theorem insert_placeholders_row_major:
  assumes "this < length (builders s)"
    and "rs \<noteq> []"
    and "\<forall>row\<in>set rs. set (object_keys row) = set (object_keys (hd rs))
                      \<and> Undefined \<notin> snd ` set row"
  shows "let cols = object_keys (hd rs);
             K = length cols;
             N = length rs;
             (r, s') = PgQueryBuilder_insert s this rs;
             qb = length (builders s)
         in r = Inr qb
          \<and> sql_of s' qb =
              ''INSERT INTO '' @ quoted (tableName (entity (builders s ! this)))
              @ '' ('' @ join '', '' (map quoted cols) @ '') VALUES''
              @ join '', ''
                  (map (\<lambda>i. ''('' @ join '', ''
                               (map (\<lambda>j. ''$'' @ nat_toString (i * K + j + 1)) [0..<K])
                             @ '')'')
                     [0..<N])
          \<and> length (params_of s' qb) = N * K
          \<and> (\<forall>i<N. \<forall>j<K. params_of s' qb ! (i * K + j) = js_get (rs ! i) (cols ! j)
                           \<and> js_get (rs ! i) (cols ! j) \<noteq> Undefined)"
proof -
  obtain r rs' where rs: "rs = r # rs'" using assms(2) by (cases rs) auto
  let ?cols = "object_keys r"
  let ?K = "length ?cols"
  let ?vss = "map (\<lambda>row. map (js_get row) ?cols) rs"
  let ?cells = "concat ?vss"
  have uniform: "\<forall>vs\<in>set ?vss. length vs = ?K" by simp
  have len: "length ?cells = length rs * ?K"
    using length_concat_uniform [OF uniform] by simp
  have nth: "?cells ! (i * ?K + j) = js_get (rs ! i) (?cols ! j)"
    if "i < length rs" "j < ?K" for i j
    using nth_concat_uniform [OF uniform, of i j] that by simp
  have def: "js_get row c \<noteq> Undefined" if "row \<in> set rs" "c \<in> set ?cols" for row c
  proof (rule js_get_defined)
    from assms(3) that(1)
    have k: "set (object_keys row) = set (object_keys (hd rs))"
      and u: "Undefined \<notin> snd ` set row"
      by blast+
    from that(2) have "c \<in> set (object_keys (hd rs))" by (simp add: rs)
    then show "c \<in> set (object_keys row)" by (simp only: k)
    from u show "Undefined \<notin> snd ` set row" .
  qed
  have all_def: "Undefined \<notin> set ?cells"
  proof
    assume "Undefined \<in> set ?cells"
    then obtain row c where "row \<in> set rs" "c \<in> set ?cols" "Undefined = js_get row c"
      by auto
    with def [of row c] show False by simp
  qed
  have dv: "defined_values ?cells = ?cells"
  proof -
    have "\<forall>v\<in>set ?cells. v \<noteq> Undefined" using all_def by blast
    then show ?thesis unfolding defined_values_def by (rule filter_True)
  qed
  have cell: "cell_text ?cells (i * ?K + j) = ''$'' @ nat_toString (i * ?K + j + 1)"
    if "i < length rs" "j < ?K" for i j
    using cell_text_all_defined [OF all_def, of "i * ?K + j"] index_in_range [OF that] len
    by simp
  have body: "rows_text 0 ?vss =
      join '', ''
        (map (\<lambda>i. ''('' @ join '', ''
                     (map (\<lambda>j. ''$'' @ nat_toString (i * ?K + j + 1)) [0..<?K])
                   @ '')'')
           [0..<length rs])"
  proof -
    have "rows_text 0 ?vss =
      join '', ''
        (map (\<lambda>i. ''('' @ join '', ''
                     (map (\<lambda>j. cell_text ?cells (i * ?K + j)) [0..<?K])
                   @ '')'')
           [0..<length rs])"
      using rows_text_cells [of 0 "[]" ?vss ?K, OF _ uniform] by simp
    also have "\<dots> = join '', ''
        (map (\<lambda>i. ''('' @ join '', ''
                     (map (\<lambda>j. ''$'' @ nat_toString (i * ?K + j + 1)) [0..<?K])
                   @ '')'')
           [0..<length rs])"
    proof -
      have inner: "map (\<lambda>j. cell_text ?cells (i * ?K + j)) [0..<?K]
                 = map (\<lambda>j. ''$'' @ nat_toString (i * ?K + j + 1)) [0..<?K]"
        if "i < length rs" for i
        by (rule map_cong [OF refl]) (simp add: cell that)
      have "map (\<lambda>i. ''('' @ join '', ''
                     (map (\<lambda>j. cell_text ?cells (i * ?K + j)) [0..<?K])
                   @ '')'') [0..<length rs]
          = map (\<lambda>i. ''('' @ join '', ''
                     (map (\<lambda>j. ''$'' @ nat_toString (i * ?K + j + 1)) [0..<?K])
                   @ '')'') [0..<length rs]"
        by (rule map_cong [OF refl]) (simp add: inner)
      then show ?thesis by (rule arg_cong)
    qed
    finally show ?thesis .
  qed
  have d: "js_get (rs ! i) (?cols ! j) \<noteq> Undefined" if "i < length rs" "j < ?K" for i j
    using that by (intro def) simp_all
  show ?thesis
    using PgQueryBuilder_insert_eq [OF assms(1), of r rs'] body len nth d dv
    by (simp add: rs Let_def sql_of_def params_of_def insert_header_def)
qed

theorem insert_placeholders_row_major_witness:
  \<open>0 < length (builders store0)
   \<and> rows_all_defined \<noteq> []
   \<and> fst (PgQueryBuilder_insert store0 0 rows_all_defined) = Inr 1
   \<and> sql_of (snd (PgQueryBuilder_insert store0 0 rows_all_defined)) 1
       = ''INSERT INTO "users" ("name", "email") VALUES($1, $2), ($3, $4)''
   \<and> length (params_of (snd (PgQueryBuilder_insert store0 0 rows_all_defined)) 1) = 4
   \<and> params_of (snd (PgQueryBuilder_insert store0 0 rows_all_defined)) 1 ! 3 = Str ''b@x.com''\<close>
proof -
  have h1: "0 < length (builders store0)" by (simp add: store0_def)
  have h2: "rows_all_defined \<noteq> []" by (simp add: rows_all_defined_def)
  have h3: "\<forall>row\<in>set rows_all_defined.
              set (object_keys row) = set (object_keys (hd rows_all_defined))
              \<and> Undefined \<notin> snd ` set row"
    by (simp add: rows_all_defined_def object_keys_def)
  note t = insert_placeholders_row_major [OF h1 h2 h3, unfolded Let_def split_def]
  have b: "length (builders store0) = 1" by (simp add: store0_def)
  have r: "fst (PgQueryBuilder_insert store0 0 rows_all_defined) = Inr 1"
    using t [THEN conjunct1] by (simp only: b)
  have q: \<open>sql_of (snd (PgQueryBuilder_insert store0 0 rows_all_defined)) 1
       = ''INSERT INTO "users" ("name", "email") VALUES($1, $2), ($3, $4)''\<close>
    unfolding t [THEN conjunct2, THEN conjunct1, unfolded b]
    by (simp add: eval_simps rows_all_defined_def upt_rec [of 0])
  have l: "length (params_of (snd (PgQueryBuilder_insert store0 0 rows_all_defined)) 1) = 4"
    unfolding t [THEN conjunct2, THEN conjunct2, THEN conjunct1, unfolded b]
    by (simp add: rows_all_defined_def object_keys_def)
  have i: "(1::nat) < length rows_all_defined"
    and j: "(1::nat) < length (object_keys (hd rows_all_defined))"
    by (simp_all add: rows_all_defined_def object_keys_def)
  have k: "1 * length (object_keys (hd rows_all_defined)) + 1 = (3::nat)"
    by (simp add: rows_all_defined_def object_keys_def)
  have n: "params_of (snd (PgQueryBuilder_insert store0 0 rows_all_defined)) 1 ! 3
             = Str ''b@x.com''"
    using t [THEN conjunct2, THEN conjunct2, THEN conjunct2, unfolded b, rule_format, OF i j,
             THEN conjunct1, unfolded k]
    by (simp add: rows_all_defined_def object_keys_def js_get_def)
  from h1 h2 r q l n show ?thesis by blast
qed

text \<open>
  Claim C2, amended. In \<^verbatim>\<open>insert\<close> and in \<^verbatim>\<open>update\<close> an undefined value is written
  as \<^verbatim>\<open>NULL\<close> and adds nothing to the parameter list, and a defined value is written
  as the placeholder whose number is one plus the number of defined values before it in
  the whole statement: the parameter list is the list of the defined values in order.
  For the rows \<^verbatim>\<open>{name: "A", email: "a@x.com"}, {name: "B", email: undefined}\<close> the SQL
  ends in \<^verbatim>\<open>VALUES($1, $2), ($3, NULL)\<close>, with no space after \<^verbatim>\<open>VALUES\<close>, and the
  parameters are \<^verbatim>\<open>["A", "a@x.com", "B"]\<close>. The value of a cell is what
  \<^verbatim>\<open>row[column]\<close> reads, prototype chain included: for the rows
  \<^verbatim>\<open>{constructor: "x"}, {}\<close> the second row's cell is the inherited function, so the
  SQL ends in \<^verbatim>\<open>VALUES($1), ($2)\<close> and two parameters are pushed.
\<close>

theorem undefined_takes_no_placeholder:
  assumes "this < length (builders s)"
  shows \<open>(rs \<noteq> [] \<longrightarrow>
           (let cols = object_keys (hd rs);
                K = length cols;
                cells = concat (map (\<lambda>row. map (js_get row) cols) rs);
                (r, s') = PgQueryBuilder_insert s this rs;
                qb = length (builders s)
            in r = Inr qb
             \<and> sql_of s' qb =
                 ''INSERT INTO '' @ quoted (tableName (entity (builders s ! this)))
                 @ '' ('' @ join '', '' (map quoted cols) @ '') VALUES''
                 @ join '', ''
                     (map (\<lambda>i. ''('' @ join '', ''
                                  (map (\<lambda>j. cell_text cells (i * K + j)) [0..<K])
                                @ '')'')
                        [0..<length rs])
             \<and> params_of s' qb = defined_values cells))
       \<and> (let keys = object_keys columns;
                vals = map (js_get columns) keys;
                (qb, s') = PgQueryBuilder_update s this columns
            in qb = length (builders s)
             \<and> sql_of s' qb =
                 ''UPDATE '' @ quoted (tableName (entity (builders s ! this))) @ '' SET''
                 @ concat (map (\<lambda>i. '' '' @ quoted (keys ! i) @ '' = ''
                                      @ cell_text vals i
                                      @ (if Suc i < length keys then '', '' else []))
                             [0..<length keys])
             \<and> params_of s' qb = defined_values vals)
       \<and> sql_of (snd (PgQueryBuilder_insert store0 0 rows_one_undefined)) 1
           = ''INSERT INTO "users" ("name", "email") VALUES($1, $2), ($3, NULL)''
       \<and> params_of (snd (PgQueryBuilder_insert store0 0 rows_one_undefined)) 1
           = [Str ''A'', Str ''a@x.com'', Str ''B'']
       \<and> sql_of (snd (PgQueryBuilder_insert store0 0 rows_inherited_constructor)) 1
           = ''INSERT INTO "users" ("constructor") VALUES($1), ($2)''
       \<and> params_of (snd (PgQueryBuilder_insert store0 0 rows_inherited_constructor)) 1
           = [Str ''x'', NativeFunction ''Object'']\<close>
proof -
  have ins: "let cols = object_keys (hd rs);
                K = length cols;
                cells = concat (map (\<lambda>row. map (js_get row) cols) rs);
                (r, s') = PgQueryBuilder_insert s this rs;
                qb = length (builders s)
            in r = Inr qb
             \<and> sql_of s' qb =
                 ''INSERT INTO '' @ quoted (tableName (entity (builders s ! this)))
                 @ '' ('' @ join '', '' (map quoted cols) @ '') VALUES''
                 @ join '', ''
                     (map (\<lambda>i. ''('' @ join '', ''
                                  (map (\<lambda>j. cell_text cells (i * K + j)) [0..<K])
                                @ '')'')
                        [0..<length rs])
             \<and> params_of s' qb = defined_values cells"
    if ne: "rs \<noteq> []"
  proof -
    obtain r rs' where rs: "rs = r # rs'" using ne by (cases rs) auto
    let ?cols = "object_keys r"
    let ?vss = "map (\<lambda>row. map (js_get row) ?cols) rs"
    have uniform: "\<forall>vs\<in>set ?vss. length vs = length ?cols" by simp
    have body: "rows_text 0 ?vss =
      join '', ''
        (map (\<lambda>i. ''('' @ join '', ''
                     (map (\<lambda>j. cell_text (concat ?vss) (i * length ?cols + j))
                        [0..<length ?cols])
                   @ '')'')
           [0..<length rs])"
      using rows_text_cells [of 0 "[]" ?vss "length ?cols", OF _ uniform] by simp
    show ?thesis
      using PgQueryBuilder_insert_eq [OF assms, of r rs'] body
      by (simp add: rs Let_def sql_of_def params_of_def insert_header_def)
  qed
  have upd: "let keys = object_keys columns;
                vals = map (js_get columns) keys;
                (qb, s') = PgQueryBuilder_update s this columns
            in qb = length (builders s)
             \<and> sql_of s' qb =
                 ''UPDATE '' @ quoted (tableName (entity (builders s ! this))) @ '' SET''
                 @ concat (map (\<lambda>i. '' '' @ quoted (keys ! i) @ '' = ''
                                      @ cell_text vals i
                                      @ (if Suc i < length keys then '', '' else []))
                             [0..<length keys])
             \<and> params_of s' qb = defined_values vals"
  proof -
    let ?keys = "object_keys columns"
    let ?kvs = "map (\<lambda>k. (k, js_get columns k)) ?keys"
    have "update_text 0 ?kvs =
        concat (map (\<lambda>i. '' '' @ quoted (fst (?kvs ! i)) @ '' = ''
                       @ cell_text ([] @ map snd ?kvs) (length ([]::jsval list) + i)
                       @ (if Suc i < length ?kvs then '', '' else []))
               [0..<length ?kvs])"
      by (rule update_text_cells) simp
    also have "\<dots> =
        concat (map (\<lambda>i. '' '' @ quoted (?keys ! i) @ '' = ''
                       @ cell_text (map (js_get columns) ?keys) i
                       @ (if Suc i < length ?keys then '', '' else []))
               [0..<length ?keys])"
      by (rule arg_cong [where f = concat], rule map_cong) (simp_all add: comp_def)
    finally have body: "update_text 0 ?kvs =
        concat (map (\<lambda>i. '' '' @ quoted (?keys ! i) @ '' = ''
                       @ cell_text (map (js_get columns) ?keys) i
                       @ (if Suc i < length ?keys then '', '' else []))
               [0..<length ?keys])" .
    show ?thesis
      using PgQueryBuilder_update_eq [OF assms, of columns] body
      by (simp add: Let_def sql_of_def params_of_def update_header_def)
  qed
  have ex: \<open>sql_of (snd (PgQueryBuilder_insert store0 0 rows_one_undefined)) 1
           = ''INSERT INTO "users" ("name", "email") VALUES($1, $2), ($3, NULL)''
       \<and> params_of (snd (PgQueryBuilder_insert store0 0 rows_one_undefined)) 1
           = [Str ''A'', Str ''a@x.com'', Str ''B'']\<close>
    by (simp add: insert_one_undefined sql_of_def params_of_def)
  have inh: \<open>sql_of (snd (PgQueryBuilder_insert store0 0 rows_inherited_constructor)) 1
           = ''INSERT INTO "users" ("constructor") VALUES($1), ($2)''
       \<and> params_of (snd (PgQueryBuilder_insert store0 0 rows_inherited_constructor)) 1
           = [Str ''x'', NativeFunction ''Object'']\<close>
    by (simp add: insert_inherited_constructor sql_of_def params_of_def)
  from ins upd ex inh show ?thesis by blast
qed

theorem undefined_takes_no_placeholder_witness:
  \<open>0 < length (builders store0)
   \<and> rows_one_undefined \<noteq> []
   \<and> fst (PgQueryBuilder_insert store0 0 rows_one_undefined) = Inr 1
   \<and> params_of (snd (PgQueryBuilder_insert store0 0 rows_one_undefined)) 1
       = [Str ''A'', Str ''a@x.com'', Str ''B'']
   \<and> sql_of (snd (PgQueryBuilder_update store0 0 columns_one_undefined)) 1
       = ''UPDATE "users" SET "name" = $1,  "email" = NULL,  "id" = $2''
   \<and> params_of (snd (PgQueryBuilder_update store0 0 columns_one_undefined)) 1
       = [Str ''A'', Num 7]\<close>
proof -
  have h: "0 < length (builders store0)" by (simp add: store0_def)
  have ne: "rows_one_undefined \<noteq> []" by (simp add: rows_one_undefined_def)
  have b: "length (builders store0) = 1" by (simp add: store0_def)
  note t = undefined_takes_no_placeholder
             [OF h, of rows_one_undefined columns_one_undefined, unfolded Let_def split_def b]
  note i = t [THEN conjunct1, rule_format, OF ne]
  note u0 = t [THEN conjunct2, THEN conjunct1]
  note u = u0 [unfolded u0 [THEN conjunct1]]
  have r: "fst (PgQueryBuilder_insert store0 0 rows_one_undefined) = Inr 1"
    by (rule i [THEN conjunct1])
  have p: "params_of (snd (PgQueryBuilder_insert store0 0 rows_one_undefined)) 1
       = [Str ''A'', Str ''a@x.com'', Str ''B'']"
    unfolding i [THEN conjunct2, THEN conjunct2]
    by (simp add: rows_one_undefined_def object_keys_def js_get_def)
  have q: \<open>sql_of (snd (PgQueryBuilder_update store0 0 columns_one_undefined)) 1
       = ''UPDATE "users" SET "name" = $1,  "email" = NULL,  "id" = $2''\<close>
    unfolding u [THEN conjunct2, THEN conjunct1]
    by (simp add: eval_simps columns_one_undefined_def cell_text_def upt_rec [of 0])
  have v: "params_of (snd (PgQueryBuilder_update store0 0 columns_one_undefined)) 1
       = [Str ''A'', Num 7]"
    unfolding u [THEN conjunct2, THEN conjunct2]
    by (simp add: columns_one_undefined_def object_keys_def js_get_def)
  from h ne r p q v show ?thesis by blast
qed

text \<open>
  Claim C2 as stated gives the text \<^verbatim>\<open>VALUES ($1, $2), ($3, NULL)\<close> for that example.
  The SQL the builder makes does not contain it.
\<close>

theorem example_insert_has_no_space_after_VALUES:
  \<open>\<not> sublist ''VALUES ($1, $2), ($3, NULL)''
       (sql_of (snd (PgQueryBuilder_insert store0 0 rows_one_undefined)) 1)\<close>
  by (simp add: insert_one_undefined sql_of_def sublist_Cons_right prefix_Cons)

section \<open>Every method allocates one builder\<close>

lemma set_sql_new:
  "set_sql (s\<lparr>arrays := arrays s @ [ps],
             builders := builders s @ [\<lparr>connection = c, entity = e, sql = [], params = p\<rparr>]\<rparr>)
       (length (builders s)) v
   = s\<lparr>arrays := arrays s @ [ps],
       builders := builders s @ [\<lparr>connection = c, entity = e, sql = v, params = p\<rparr>]\<rparr>"
  by (simp add: set_sql_def)

lemma nth_builders_new:
  "this < length (builders s) \<Longrightarrow>
   builders (s\<lparr>arrays := a, builders := builders s @ [b]\<rparr>) ! this = builders s ! this"
  by (simp add: nth_append)

lemma PgQueryBuilder_select_eq:
  "this < length (builders s) \<Longrightarrow>
   PgQueryBuilder_select s this columns =
     fresh_builder s (connection (builders s ! this)) (entity (builders s ! this))
       (''SELECT '' @ join '', '' (map quoted columns)
        @ '' FROM '' @ quoted (tableName (entity (builders s ! this)))) []"
  by (simp add: PgQueryBuilder_select_def new_PgQueryBuilder_eq set_sql_new fresh_builder_def
      nth_append)

lemma PgQueryBuilder_delete_eq:
  "this < length (builders s) \<Longrightarrow>
   PgQueryBuilder_delete s this =
     fresh_builder s (connection (builders s ! this)) (entity (builders s ! this))
       (''DELETE FROM '' @ quoted (tableName (entity (builders s ! this)))) []"
  by (simp add: PgQueryBuilder_delete_def new_PgQueryBuilder_eq set_sql_new fresh_builder_def
      nth_append)

lemma PgQueryBuilder_where_eq:
  "this < length (builders s) \<Longrightarrow>
   PgQueryBuilder_where s this condition1 =
     fresh_builder s (connection (builders s ! this)) (entity (builders s ! this))
       (sql_of s this @ '' WHERE''
        @ where_condition (entity (builders s ! this)) condition1) []"
  by (simp add: PgQueryBuilder_where_def new_PgQueryBuilder_eq set_sql_new fresh_builder_def
      nth_append sql_append_def sql_of_def set_sql_def)

lemma PgQueryBuilder_orderBy_eq:
  "this < length (builders s) \<Longrightarrow>
   PgQueryBuilder_orderBy s this column dir =
     fresh_builder s (connection (builders s ! this)) (entity (builders s ! this))
       (sql_of s this @ '' ORDER BY '' @ quoted column @ '' '' @ direction_upper dir) []"
  by (simp add: PgQueryBuilder_orderBy_def new_PgQueryBuilder_eq set_sql_new fresh_builder_def
      nth_append sql_of_def)

lemma PgQueryBuilder_limit_eq:
  "this < length (builders s) \<Longrightarrow>
   PgQueryBuilder_limit s this count =
     fresh_builder s (connection (builders s ! this)) (entity (builders s ! this))
       (sql_of s this @ '' LIMIT '' @ Number_toString count) []"
  by (simp add: PgQueryBuilder_limit_def new_PgQueryBuilder_eq set_sql_new fresh_builder_def
      nth_append sql_of_def)

lemma PgQueryBuilder_offset_eq:
  "this < length (builders s) \<Longrightarrow>
   PgQueryBuilder_offset s this count =
     fresh_builder s (connection (builders s ! this)) (entity (builders s ! this))
       (sql_of s this @ '' OFFSET '' @ Number_toString count) []"
  by (simp add: PgQueryBuilder_offset_def new_PgQueryBuilder_eq set_sql_new fresh_builder_def
      nth_append sql_of_def)

lemma PgQueryBuilder_innerJoin_eq:
  "this < length (builders s) \<Longrightarrow>
   PgQueryBuilder_innerJoin s this other on =
     fresh_builder s (connection (builders s ! this))
       (js_spread (entity (builders s ! this)) other)
       (''SELECT * FROM '' @ quoted (tableName (entity (builders s ! this)))
        @ '' INNER JOIN '' @ quoted (tableName other) @ '' ON''
        @ join_condition (entity (builders s ! this)) other on) []"
  by (simp add: PgQueryBuilder_innerJoin_def new_PgQueryBuilder_eq set_sql_new fresh_builder_def
      nth_append sql_append_def sql_of_def set_sql_def)

lemma PgQueryBuilder_leftJoin_eq:
  "this < length (builders s) \<Longrightarrow>
   PgQueryBuilder_leftJoin s this other on =
     fresh_builder s (connection (builders s ! this))
       (js_spread (entity (builders s ! this)) other)
       (''SELECT * FROM '' @ quoted (tableName (entity (builders s ! this)))
        @ '' LEFT JOIN '' @ quoted (tableName other) @ '' ON''
        @ join_condition (entity (builders s ! this)) other on) []"
  by (simp add: PgQueryBuilder_leftJoin_def new_PgQueryBuilder_eq set_sql_new fresh_builder_def
      nth_append sql_append_def sql_of_def set_sql_def)

lemma fresh_builder_sql [simp]:
  "sql_of (snd (fresh_builder s c e t ps)) (length (builders s)) = t"
  "params_of (snd (fresh_builder s c e t ps)) (length (builders s)) = ps"
  "fst (fresh_builder s c e t ps) = length (builders s)"
  "length (builders (snd (fresh_builder s c e t ps))) = Suc (length (builders s))"
  "connection (builders (snd (fresh_builder s c e t ps)) ! length (builders s)) = c"
  "entity (builders (snd (fresh_builder s c e t ps)) ! length (builders s)) = e"
  by (simp_all add: fresh_builder_def sql_of_def params_of_def)

lemma PgQueryBuilder_insert_Nil:
  "PgQueryBuilder_insert s this [] =
     (Inl (TypeError ''Cannot convert undefined or null to object''),
      snd (fresh_builder s (connection (builders s ! this)) (entity (builders s ! this)) [] []))"
  by (simp add: PgQueryBuilder_insert_def new_PgQueryBuilder_eq rows_index_def fresh_builder_def)

lemma PgQueryBuilder_insert_fresh:
  "this < length (builders s) \<Longrightarrow>
   PgQueryBuilder_insert s this (r # rs) =
     (Inr (length (builders s)),
      snd (fresh_builder s (connection (builders s ! this)) (entity (builders s ! this))
             (insert_header (entity (builders s ! this)) (object_keys r)
              @ rows_text 0 (map (\<lambda>row. map (js_get row) (object_keys r)) (r # rs)))
             (defined_values
                (concat (map (\<lambda>row. map (js_get row) (object_keys r)) (r # rs))))))"
  unfolding fresh_builder_def snd_conv by (rule PgQueryBuilder_insert_eq)

lemma PgQueryBuilder_update_fresh:
  "this < length (builders s) \<Longrightarrow>
   PgQueryBuilder_update s this columns =
     fresh_builder s (connection (builders s ! this)) (entity (builders s ! this))
       (update_header (entity (builders s ! this))
        @ update_text 0 (map (\<lambda>k. (k, js_get columns k)) (object_keys columns)))
       (defined_values (map (js_get columns) (object_keys columns)))"
  unfolding fresh_builder_def by (rule PgQueryBuilder_update_eq)

lemma new_builder_of_fresh:
  "this < length (builders s) \<Longrightarrow> params (builders s ! this) < length (arrays s) \<Longrightarrow>
   new_builder_of s this e (length (builders s))
     (snd (fresh_builder s (connection (builders s ! this)) e t ps))"
  by (simp add: new_builder_of_def store_extends_def fresh_builder_def sql_of_def
      params_of_def nth_append)

lemma new_PgQueryBuilder_fresh: "new_PgQueryBuilder s c e = fresh_builder s c e [] []"
  by (simp add: new_PgQueryBuilder_eq fresh_builder_def)

lemma fresh_builder_keeps:
  assumes "i < length (builders s)" and "params (builders s ! i) < length (arrays s)"
  shows "sql_of (snd (fresh_builder s c e t ps)) i = sql_of s i"
    and "params_of (snd (fresh_builder s c e t ps)) i = params_of s i"
    and "connection (builders (snd (fresh_builder s c e t ps)) ! i) = connection (builders s ! i)"
    and "i < length (builders (snd (fresh_builder s c e t ps)))"
    and "params (builders (snd (fresh_builder s c e t ps)) ! i)
           < length (arrays (snd (fresh_builder s c e t ps)))"
  using assms by (simp_all add: fresh_builder_def sql_of_def params_of_def nth_append)

lemma fresh_builder_new:
  "sql_of (snd (fresh_builder s c e t ps)) (length (builders s)) = t"
  "params_of (snd (fresh_builder s c e t ps)) (length (builders s)) = ps"
  "connection (builders (snd (fresh_builder s c e t ps)) ! length (builders s)) = c"
  "length (builders s) < length (builders (snd (fresh_builder s c e t ps)))"
  "params (builders (snd (fresh_builder s c e t ps)) ! length (builders s))
     < length (arrays (snd (fresh_builder s c e t ps)))"
  by (simp_all add: fresh_builder_def sql_of_def params_of_def)

section \<open>The WHERE clause\<close>

lemma expand_replacement_plain:
  "CHR ''$'' \<notin> set repl \<Longrightarrow> expand_replacement m p f repl = repl"
  by (induction m p f repl rule: expand_replacement.induct) auto

lemma replace_global_plain:
  "CHR ''$'' \<notin> set repl \<Longrightarrow> replace_global a b repl pre s = replace_plain a b repl s"
  by (induction a b repl pre s rule: replace_global.induct)
     (simp_all add: expand_replacement_plain)

lemma store_delete_made: "PgQueryBuilder_delete store0 0 = (1, store_delete)"
  by (simp add: PgQueryBuilder_delete_eq fresh_builder_def eval_simps store_delete_def)

lemma where_on_store_delete:
  \<open>PgQueryBuilder_where store_delete 1 ''(t) => t.id === 1'' =
     fresh_builder store_delete PgConnection users
       ''DELETE FROM "users" WHERE(t) => "users".id === 1'' []\<close>
proof -
  have h: "1 < length (builders store_delete)" by (simp add: store_delete_def)
  show ?thesis
    unfolding PgQueryBuilder_where_eq [OF h]
    by (simp add: store_delete_def sql_of_def where_condition_def eval_simps)
qed

text \<open>
  What \<^verbatim>\<open>where(p)\<close> builds on a builder whose SQL is \<open>S\<close>: a new builder whose SQL is
  \<open>S\<close>, then \<^verbatim>\<open>" WHERE"\<close> with nothing after it, then the source text of the whole
  function \<open>p\<close> in which \<^verbatim>\<open>replace(/t\./g, ...)\<close> has put the quoted table name and a
  dot for every \<^verbatim>\<open>t.\<close>; when the table name has no \<^verbatim>\<open>$\<close> that is the plain
  replacement of every \<^verbatim>\<open>t.\<close>. A second \<^verbatim>\<open>where\<close> on the result appends its own
  suffix after the first.
\<close>

lemma where_appends_WHERE_and_source_text:
  assumes "this < length (builders s)"
  shows "let ent = entity (builders s ! this);
             (qb, s1) = PgQueryBuilder_where s this p;
             (qb2, s2) = PgQueryBuilder_where s1 qb p2
         in qb = length (builders s)
          \<and> sql_of s1 qb = sql_of s this @ '' WHERE'' @ where_condition ent p
          \<and> qb2 = Suc (length (builders s))
          \<and> sql_of s2 qb2 = sql_of s this @ '' WHERE'' @ where_condition ent p
                                         @ '' WHERE'' @ where_condition ent p2
          \<and> (CHR ''$'' \<notin> set (tableName ent) \<longrightarrow>
               where_condition ent p
                 = replace_plain (CHR ''t'') (CHR ''.'') (quoted (tableName ent) @ ''.'') p)"
proof -
  let ?ent = "entity (builders s ! this)"
  define c where "c = connection (builders s ! this)"
  define t1 where "t1 = sql_of s this @ '' WHERE'' @ where_condition ?ent p"
  define t2 where "t2 = t1 @ '' WHERE'' @ where_condition ?ent p2"
  let ?r1 = "fresh_builder s c ?ent t1 []"
  have w1: "PgQueryBuilder_where s this p = ?r1"
    unfolding c_def t1_def using assms by (rule PgQueryBuilder_where_eq)
  have l1: "length (builders s) < length (builders (snd ?r1))" by simp
  have w2: "PgQueryBuilder_where (snd ?r1) (length (builders s)) p2 =
      fresh_builder (snd ?r1) c ?ent t2 []"
    unfolding PgQueryBuilder_where_eq [OF l1] t2_def by simp
  have q2: "sql_of (snd (fresh_builder (snd ?r1) c ?ent t2 [])) (Suc (length (builders s))) = t2"
    using fresh_builder_sql(1) [of "snd ?r1" c ?ent t2 "[]"] by simp
  have f2: "fst (fresh_builder (snd ?r1) c ?ent t2 []) = Suc (length (builders s))"
    by simp
  have plain: "where_condition ?ent p
                 = replace_plain (CHR ''t'') (CHR ''.'') (quoted (tableName ?ent) @ ''.'') p"
    if "CHR ''$'' \<notin> set (tableName ?ent)"
    unfolding where_condition_def
    by (rule replace_global_plain) (simp add: quoted_def that)
  have "fst (PgQueryBuilder_where s this p) = length (builders s)
      \<and> sql_of (snd (PgQueryBuilder_where s this p)) (length (builders s)) = t1
      \<and> fst (PgQueryBuilder_where (snd (PgQueryBuilder_where s this p)) (length (builders s)) p2)
          = Suc (length (builders s))
      \<and> sql_of (snd (PgQueryBuilder_where (snd (PgQueryBuilder_where s this p))
                        (length (builders s)) p2)) (Suc (length (builders s))) = t2"
    unfolding w1 w2 f2 q2 by simp
  then show ?thesis
    using plain unfolding t2_def t1_def by (simp add: Let_def split_def)
qed

lemma where_twice_on_store_delete:
  \<open>1 < length (builders store_delete)
   \<and> fst (PgQueryBuilder_where store_delete 1 ''(t) => t.id === 1'') = 2
   \<and> sql_of (snd (PgQueryBuilder_where store_delete 1 ''(t) => t.id === 1'')) 2
       = ''DELETE FROM "users" WHERE(t) => "users".id === 1''
   \<and> sql_of (snd (PgQueryBuilder_where
                     (snd (PgQueryBuilder_where store_delete 1 ''(t) => t.id === 1''))
                     2 ''(t) => t.age > 18'')) 3
       = ''DELETE FROM "users" WHERE(t) => "users".id === 1 WHERE(t) => "users".age > 18''\<close>
proof -
  have h: "1 < length (builders store_delete)" by (simp add: store_delete_def)
  have b: "length (builders store_delete) = 2" by (simp add: store_delete_def)
  note t0 = where_appends_WHERE_and_source_text
              [OF h, of "''(t) => t.id === 1''" "''(t) => t.age > 18''",
               unfolded Let_def split_def b]
  note f = t0 [THEN conjunct1]
  note t = t0 [unfolded f]
  have three: "Suc 2 = (3::nat)" by simp
  note g = t [THEN conjunct2, THEN conjunct2, THEN conjunct1, unfolded three]
  have q1: \<open>sql_of (snd (PgQueryBuilder_where store_delete 1 ''(t) => t.id === 1'')) 2
       = ''DELETE FROM "users" WHERE(t) => "users".id === 1''\<close>
    unfolding t [THEN conjunct2, THEN conjunct1]
    by (simp add: store_delete_def sql_of_def where_condition_def eval_simps)
  have q2: \<open>sql_of (snd (PgQueryBuilder_where
                     (snd (PgQueryBuilder_where store_delete 1 ''(t) => t.id === 1''))
                     2 ''(t) => t.age > 18'')) 3
       = ''DELETE FROM "users" WHERE(t) => "users".id === 1 WHERE(t) => "users".age > 18''\<close>
    unfolding t [THEN conjunct2, THEN conjunct2, THEN conjunct2, THEN conjunct1,
                 unfolded g]
    by (simp add: store_delete_def sql_of_def where_condition_def eval_simps)
  from h f q1 q2 show ?thesis by blast
qed

text \<open>
  For \<^verbatim>\<open>(t) => t.id === 1\<close> on \<^verbatim>\<open>DELETE FROM "users"\<close> the result neither starts with
  the receiver's SQL and \<^verbatim>\<open>" WHERE "\<close> nor contains \<^verbatim>\<open>"users"."id"\<close>.
\<close>

lemma where_result_is_not_S_WHERE_condition:
  \<open>\<not> prefix (sql_of store_delete 1 @ '' WHERE '')
       (sql_of (snd (PgQueryBuilder_where store_delete 1 ''(t) => t.id === 1'')) 2)
   \<and> \<not> sublist ''"users"."id"''
       (sql_of (snd (PgQueryBuilder_where store_delete 1 ''(t) => t.id === 1'')) 2)\<close>
proof -
  have a: \<open>sql_of (snd (PgQueryBuilder_where store_delete 1 ''(t) => t.id === 1'')) 2
       = ''DELETE FROM "users" WHERE(t) => "users".id === 1''\<close>
    unfolding where_on_store_delete
    by (simp add: fresh_builder_def sql_of_def store_delete_def)
  have b: \<open>sql_of store_delete 1 = ''DELETE FROM "users"''\<close>
    by (simp add: store_delete_def sql_of_def)
  show ?thesis
    unfolding a b by (simp add: sublist_Cons_right prefix_Cons)
qed

lemma store_update_made:
  "PgQueryBuilder_update store0 0 [(''name'', Str ''A'')] = (1, store_update)"
proof -
  have h: "0 < length (builders store0)" by (simp add: store0_def)
  show ?thesis
    unfolding PgQueryBuilder_update_eq [OF h]
    by (simp add: eval_simps update_header_def store_update_def)
qed

lemma where_on_store_update:
  \<open>PgQueryBuilder_where store_update 1 ''(t) => t.id === 1'' =
     fresh_builder store_update PgConnection users
       ''UPDATE "users" SET "name" = $1 WHERE(t) => "users".id === 1'' []\<close>
proof -
  have h: "1 < length (builders store_update)" by (simp add: store_update_def)
  show ?thesis
    unfolding PgQueryBuilder_where_eq [OF h]
    by (simp add: store_update_def sql_of_def where_condition_def eval_simps)
qed

lemma where_result_has_no_parameters:
  "params_of (snd (PgQueryBuilder_where s this p)) (fst (PgQueryBuilder_where s this p)) = []"
  by (simp add: PgQueryBuilder_where_def new_PgQueryBuilder_eq sql_append_def set_sql_def
      params_of_def sql_of_def)

text \<open>
  Claim C3 says that \<^verbatim>\<open>where(p)\<close> on a draft with SQL \<open>S\<close> gives \<open>S\<close>, then
  \<^verbatim>\<open>" WHERE "\<close>, then the condition with \<^verbatim>\<open>"table"."column"\<close> references, and leaves
  the parameter list unchanged. On the draft that \<^verbatim>\<open>update({name: "A"})\<close> makes, with
  SQL \<^verbatim>\<open>UPDATE "users" SET "name" = $1\<close> and parameters \<^verbatim>\<open>["A"]\<close>,
  \<^verbatim>\<open>where((t) => t.id === 1)\<close> returns a draft whose SQL is
  \<^verbatim>\<open>UPDATE "users" SET "name" = $1 WHERE(t) => "users".id === 1\<close> and whose parameter
  list is empty: \<^verbatim>\<open>$1\<close> has lost its value, \<^verbatim>\<open>WHERE\<close> is glued to the text of the
  whole function, and the column is not quoted. The draft \<^verbatim>\<open>where\<close> returns has no
  parameters whatever the receiver holds.
\<close>

theorem where_glues_source_text_and_drops_parameters:
  \<open>PgQueryBuilder_update store0 0 [(''name'', Str ''A'')] = (1, store_update)
   \<and> sql_of store_update 1 = ''UPDATE "users" SET "name" = $1''
   \<and> params_of store_update 1 = [Str ''A'']
   \<and> fst (PgQueryBuilder_where store_update 1 ''(t) => t.id === 1'') = 2
   \<and> sql_of (snd (PgQueryBuilder_where store_update 1 ''(t) => t.id === 1'')) 2
       = ''UPDATE "users" SET "name" = $1 WHERE(t) => "users".id === 1''
   \<and> params_of (snd (PgQueryBuilder_where store_update 1 ''(t) => t.id === 1'')) 2 = []
   \<and> \<not> prefix (sql_of store_update 1 @ '' WHERE '')
         (sql_of (snd (PgQueryBuilder_where store_update 1 ''(t) => t.id === 1'')) 2)
   \<and> params_of (snd (PgQueryBuilder_where s this p)) (fst (PgQueryBuilder_where s this p))
       = []\<close>
proof -
  have a: \<open>sql_of store_update 1 = ''UPDATE "users" SET "name" = $1''\<close>
    and b: "params_of store_update 1 = [Str ''A'']"
    by (simp_all add: store_update_def sql_of_def params_of_def)
  have c: "fst (PgQueryBuilder_where store_update 1 ''(t) => t.id === 1'') = 2"
    and d: \<open>sql_of (snd (PgQueryBuilder_where store_update 1 ''(t) => t.id === 1'')) 2
       = ''UPDATE "users" SET "name" = $1 WHERE(t) => "users".id === 1''\<close>
    and e: "params_of (snd (PgQueryBuilder_where store_update 1 ''(t) => t.id === 1'')) 2 = []"
    unfolding where_on_store_update
    by (simp_all add: fresh_builder_def sql_of_def params_of_def store_update_def)
  have f: \<open>\<not> prefix (sql_of store_update 1 @ '' WHERE '')
         (sql_of (snd (PgQueryBuilder_where store_update 1 ''(t) => t.id === 1'')) 2)\<close>
    unfolding a d by (simp add: prefix_Cons)
  from store_update_made a b c d e f where_result_has_no_parameters [of s this p]
  show ?thesis by blast
qed

section \<open>The comments scenario\<close>

text \<open>
  Claim C4 says that for the entity \<^verbatim>\<open>comments\<close> the chain
  \<^verbatim>\<open>select("id","content").where(c => c.postId == 5).orderBy("id","asc").limit(10)\<close>
  compiles to
  \<^verbatim>\<open>SELECT "id", "content" FROM "comments" WHERE "comments"."postId" == 5 ORDER BY "id" ASC LIMIT 10\<close>.
  The code compiles it to
  \<^verbatim>\<open>SELECT "id", "content" FROM "comments" WHEREc => c.postId == 5 ORDER BY "id" ASC LIMIT 10\<close>
  with an empty parameter list: \<^verbatim>\<open>where\<close> glues the text of the whole function to
  \<^verbatim>\<open>WHERE\<close>, and rewrites nothing in it, since the parameter is not named \<^verbatim>\<open>t\<close>.
\<close>

theorem comments_chain_compiles_to:
  \<open>(let (b0, s0) = new_PgQueryBuilder \<lparr>arrays = [], builders = []\<rparr> PgConnection comments;
        (b1, s1) = PgQueryBuilder_select s0 b0 [''id'', ''content''];
        (b2, s2) = PgQueryBuilder_where s1 b1 ''c => c.postId == 5'';
        (b3, s3) = PgQueryBuilder_orderBy s2 b2 ''id'' Asc;
        (b4, s4) = PgQueryBuilder_limit s3 b3 10
    in (sql_of s4 b4, params_of s4 b4))
   = (''SELECT "id", "content" FROM "comments" WHEREc => c.postId == 5 ORDER BY "id" ASC LIMIT 10'',
      [])\<close>
  by (simp add: new_PgQueryBuilder_eq PgQueryBuilder_select_eq PgQueryBuilder_where_eq
      PgQueryBuilder_orderBy_eq PgQueryBuilder_limit_eq fresh_builder_def sql_of_def
      params_of_def where_condition_def comments_def Number_toString_def
      tableName_def js_get_def quoted_def nat_toString_def decimal_digits.simps digit_char_def)

text \<open>The chain does not compile to the string with a qualified, quoted column.\<close>

lemma comments_chain_is_not_the_stated_sql:
  \<open>(let (b0, s0) = new_PgQueryBuilder \<lparr>arrays = [], builders = []\<rparr> PgConnection comments;
        (b1, s1) = PgQueryBuilder_select s0 b0 [''id'', ''content''];
        (b2, s2) = PgQueryBuilder_where s1 b1 ''c => c.postId == 5'';
        (b3, s3) = PgQueryBuilder_orderBy s2 b2 ''id'' Asc;
        (b4, s4) = PgQueryBuilder_limit s3 b3 10
    in sql_of s4 b4)
   \<noteq> ''SELECT "id", "content" FROM "comments" WHERE "comments"."postId" == 5 ORDER BY "id" ASC LIMIT 10''\<close>
  by (simp add: new_PgQueryBuilder_eq PgQueryBuilder_select_eq PgQueryBuilder_where_eq
      PgQueryBuilder_orderBy_eq PgQueryBuilder_limit_eq fresh_builder_def sql_of_def
      params_of_def where_condition_def comments_def Number_toString_def
      tableName_def js_get_def quoted_def nat_toString_def decimal_digits.simps digit_char_def)

section \<open>New builders and the receiver\<close>

text \<open>
  Claim C9, amended. On a receiver that is a builder of the store, \<^verbatim>\<open>select\<close>,
  \<^verbatim>\<open>update\<close>, \<^verbatim>\<open>delete\<close>, \<^verbatim>\<open>where\<close>, \<^verbatim>\<open>orderBy\<close>, \<^verbatim>\<open>limit\<close> and
  \<^verbatim>\<open>offset\<close> return a builder that did not exist before, bound to the receiver's
  connection and entity; \<^verbatim>\<open>insert\<close> makes such a builder too and returns it when it
  is given at least one row; \<^verbatim>\<open>innerJoin\<close> and \<^verbatim>\<open>leftJoin\<close> return a new builder
  bound to the receiver's connection and to the spread of the receiver's entity and
  the joined one. Every method leaves the receiver's SQL and parameters, and every other
  builder and array of the store, as they were.
\<close>

theorem builder_methods_return_new_builder:
  assumes "this < length (builders s)"
    and "params (builders s ! this) < length (arrays s)"
  shows "(case PgQueryBuilder_select s this cols of
            (qb, s') \<Rightarrow> new_builder_of s this (entity (builders s ! this)) qb s')
       \<and> (case PgQueryBuilder_insert s this rs of
            (r, s') \<Rightarrow> (rs \<noteq> [] \<longrightarrow> r = Inr (length (builders s)))
                     \<and> new_builder_of s this (entity (builders s ! this))
                          (length (builders s)) s')
       \<and> (case PgQueryBuilder_update s this columns of
            (qb, s') \<Rightarrow> new_builder_of s this (entity (builders s ! this)) qb s')
       \<and> (case PgQueryBuilder_delete s this of
            (qb, s') \<Rightarrow> new_builder_of s this (entity (builders s ! this)) qb s')
       \<and> (case PgQueryBuilder_where s this p of
            (qb, s') \<Rightarrow> new_builder_of s this (entity (builders s ! this)) qb s')
       \<and> (case PgQueryBuilder_orderBy s this col dir of
            (qb, s') \<Rightarrow> new_builder_of s this (entity (builders s ! this)) qb s')
       \<and> (case PgQueryBuilder_limit s this n of
            (qb, s') \<Rightarrow> new_builder_of s this (entity (builders s ! this)) qb s')
       \<and> (case PgQueryBuilder_offset s this n of
            (qb, s') \<Rightarrow> new_builder_of s this (entity (builders s ! this)) qb s')
       \<and> (case PgQueryBuilder_innerJoin s this other on of
            (qb, s') \<Rightarrow> new_builder_of s this
                          (js_spread (entity (builders s ! this)) other) qb s')
       \<and> (case PgQueryBuilder_leftJoin s this other on of
            (qb, s') \<Rightarrow> new_builder_of s this
                          (js_spread (entity (builders s ! this)) other) qb s')"
proof -
  note fresh = new_builder_of_fresh [OF assms]
  have f: "case fresh_builder s (connection (builders s ! this)) e t ps of
             (qb, s') \<Rightarrow> new_builder_of s this e qb s'" for e t ps
    using fresh [of e t ps] by (simp add: split_def)
  have sel: "case PgQueryBuilder_select s this cols of
            (qb, s') \<Rightarrow> new_builder_of s this (entity (builders s ! this)) qb s'"
    unfolding PgQueryBuilder_select_eq [OF assms(1)] by (rule f)
  have ins: "case PgQueryBuilder_insert s this rs of
            (r, s') \<Rightarrow> (rs \<noteq> [] \<longrightarrow> r = Inr (length (builders s)))
                     \<and> new_builder_of s this (entity (builders s ! this))
                          (length (builders s)) s'"
  proof (cases rs)
    case Nil
    then show ?thesis by (simp add: PgQueryBuilder_insert_Nil fresh)
  next
    case (Cons r rs')
    show ?thesis
      unfolding Cons PgQueryBuilder_insert_fresh [OF assms(1)] by (simp add: fresh)
  qed
  have upd: "case PgQueryBuilder_update s this columns of
            (qb, s') \<Rightarrow> new_builder_of s this (entity (builders s ! this)) qb s'"
    unfolding PgQueryBuilder_update_fresh [OF assms(1)] by (rule f)
  have del: "case PgQueryBuilder_delete s this of
            (qb, s') \<Rightarrow> new_builder_of s this (entity (builders s ! this)) qb s'"
    unfolding PgQueryBuilder_delete_eq [OF assms(1)] by (rule f)
  have whe: "case PgQueryBuilder_where s this p of
            (qb, s') \<Rightarrow> new_builder_of s this (entity (builders s ! this)) qb s'"
    unfolding PgQueryBuilder_where_eq [OF assms(1)] by (rule f)
  have ord: "case PgQueryBuilder_orderBy s this col dir of
            (qb, s') \<Rightarrow> new_builder_of s this (entity (builders s ! this)) qb s'"
    unfolding PgQueryBuilder_orderBy_eq [OF assms(1)] by (rule f)
  have lim: "case PgQueryBuilder_limit s this n of
            (qb, s') \<Rightarrow> new_builder_of s this (entity (builders s ! this)) qb s'"
    unfolding PgQueryBuilder_limit_eq [OF assms(1)] by (rule f)
  have off: "case PgQueryBuilder_offset s this n of
            (qb, s') \<Rightarrow> new_builder_of s this (entity (builders s ! this)) qb s'"
    unfolding PgQueryBuilder_offset_eq [OF assms(1)] by (rule f)
  have inn: "case PgQueryBuilder_innerJoin s this other on of
            (qb, s') \<Rightarrow> new_builder_of s this
                          (js_spread (entity (builders s ! this)) other) qb s'"
    unfolding PgQueryBuilder_innerJoin_eq [OF assms(1)] by (rule f)
  have lef: "case PgQueryBuilder_leftJoin s this other on of
            (qb, s') \<Rightarrow> new_builder_of s this
                          (js_spread (entity (builders s ! this)) other) qb s'"
    unfolding PgQueryBuilder_leftJoin_eq [OF assms(1)] by (rule f)
  from sel ins upd del whe ord lim off inn lef show ?thesis by blast
qed

theorem builder_methods_return_new_builder_witness:
  \<open>0 < length (builders store0)
   \<and> params (builders store0 ! 0) < length (arrays store0)
   \<and> fst (PgQueryBuilder_where store0 0 ''(t) => t.id === 1'') = 1
   \<and> entity (builders (snd (PgQueryBuilder_where store0 0 ''(t) => t.id === 1'')) ! 1) = users
   \<and> sql_of (snd (PgQueryBuilder_where store0 0 ''(t) => t.id === 1'')) 0 = []
   \<and> params_of (snd (PgQueryBuilder_where store0 0 ''(t) => t.id === 1'')) 0 = []
   \<and> fst (PgQueryBuilder_insert store0 0 rows_all_defined) = Inr 1
   \<and> sql_of (snd (PgQueryBuilder_insert store0 0 rows_all_defined)) 0 = []
   \<and> params_of (snd (PgQueryBuilder_insert store0 0 rows_all_defined)) 0 = []
   \<and> entity (builders (snd (PgQueryBuilder_innerJoin store0 0 posts
                                ''(t, u) => t.id === u.authorId'')) ! 1)
       = js_spread users posts\<close>
proof -
  have h1: "0 < length (builders store0)" by (simp add: store0_def)
  have h2: "params (builders store0 ! 0) < length (arrays store0)" by (simp add: store0_def)
  have b: "length (builders store0) = 1" by (simp add: store0_def)
  have e: "entity (builders store0 ! 0) = users" by (simp add: store0_def)
  have q0: "sql_of store0 0 = []" and p0: "params_of store0 0 = []"
    by (simp_all add: store0_def sql_of_def params_of_def)
  have ne: "rows_all_defined \<noteq> []" by (simp add: rows_all_defined_def)
  note t = builder_methods_return_new_builder
             [OF h1 h2, of _ rows_all_defined _ "''(t) => t.id === 1''" _ _ _ posts
                "''(t, u) => t.id === u.authorId''",
              unfolded split_def new_builder_of_def b e q0 p0]
  note ins = t [THEN conjunct2, THEN conjunct1]
  note whe = t [THEN conjunct2, THEN conjunct2, THEN conjunct2, THEN conjunct2, THEN conjunct1]
  note inn = t [THEN conjunct2, THEN conjunct2, THEN conjunct2, THEN conjunct2, THEN conjunct2,
                THEN conjunct2, THEN conjunct2, THEN conjunct2, THEN conjunct1]
  from ins ne have i1: "fst (PgQueryBuilder_insert store0 0 rows_all_defined) = Inr 1"
    by blast
  from ins have i2: "sql_of (snd (PgQueryBuilder_insert store0 0 rows_all_defined)) 0 = []"
    and i3: "params_of (snd (PgQueryBuilder_insert store0 0 rows_all_defined)) 0 = []"
    by blast+
  from whe have w1: "fst (PgQueryBuilder_where store0 0 ''(t) => t.id === 1'') = 1"
    by blast
  from whe have w2: "entity (builders (snd (PgQueryBuilder_where store0 0 ''(t) => t.id === 1''))
                       ! fst (PgQueryBuilder_where store0 0 ''(t) => t.id === 1'')) = users"
    and w3: "sql_of (snd (PgQueryBuilder_where store0 0 ''(t) => t.id === 1'')) 0 = []"
    and w4: "params_of (snd (PgQueryBuilder_where store0 0 ''(t) => t.id === 1'')) 0 = []"
    by blast+
  from inn have j1: "fst (PgQueryBuilder_innerJoin store0 0 posts
                            ''(t, u) => t.id === u.authorId'') = 1"
    and j2: "entity (builders (snd (PgQueryBuilder_innerJoin store0 0 posts
                                ''(t, u) => t.id === u.authorId''))
               ! fst (PgQueryBuilder_innerJoin store0 0 posts
                        ''(t, u) => t.id === u.authorId''))
             = js_spread users posts"
    by blast+
  from h1 h2 w1 w2 [unfolded w1] w3 w4 i1 i2 i3 j2 [unfolded j1] show ?thesis by blast
qed

text \<open>
  Claim C9 as stated: every method returns a builder bound to the same entity, for every
  argument. \<^verbatim>\<open>innerJoin\<close> with another entity binds the new builder to a different
  entity, and \<^verbatim>\<open>insert\<close> without rows returns no builder.
\<close>

theorem innerJoin_binds_another_entity:
  "entity (builders (snd (PgQueryBuilder_innerJoin store0 0 posts
                            ''(t, u) => t.id === u.authorId''))
             ! fst (PgQueryBuilder_innerJoin store0 0 posts ''(t, u) => t.id === u.authorId''))
     \<noteq> entity (builders store0 ! 0)
   \<and> fst (PgQueryBuilder_insert store0 0 []) \<noteq> Inr (length (builders store0))"
proof -
  have h1: "0 < length (builders store0)" by (simp add: store0_def)
  have "js_spread users posts \<noteq> users"
    by (simp add: js_spread_def users_def posts_def)
  then show ?thesis
    unfolding PgQueryBuilder_innerJoin_eq [OF h1] PgQueryBuilder_insert_Nil
    by (simp add: store0_def fresh_builder_def)
qed

section \<open>The repository executes the builder it constructed\<close>

lemma execute_eq:
  "PgQueryBuilder_execute drv s this w =
     (case Connection_query drv (connection (builders s ! this)) (sql_of s this)
             (Some (params_of s this)) w of
        (Inl e, w1) \<Rightarrow> (Inl e, w1)
      | (Inr result, w1) \<Rightarrow> (Inr (rows result), w1))"
  by (simp add: PgQueryBuilder_execute_def)

text \<open>The builder the constructor made is still empty after two calls whose results are
  dropped.\<close>

lemma dropped_calls_leave_builder_empty:
  assumes r1: "r1 = fresh_builder (snd (fresh_builder s c e [] [])) c1 e1 t1 ps1"
    and r2: "r2 = fresh_builder (snd r1) c2 e2 t2 ps2"
  shows "sql_of (snd r2) (length (builders s)) = []"
    and "params_of (snd r2) (length (builders s)) = []"
    and "connection (builders (snd r2) ! length (builders s)) = c"
proof -
  let ?s1 = "snd (fresh_builder s c e [] [])"
  note n = fresh_builder_new [of s c e "[]" "[]"]
  note k1 = fresh_builder_keeps [OF n(4) n(5), of c1 e1 t1 ps1]
  note k2 = fresh_builder_keeps [OF k1(4) k1(5), of c2 e2 t2 ps2]
  show "sql_of (snd r2) (length (builders s)) = []"
    unfolding r2 r1 k2(1) k1(1) n(1) ..
  show "params_of (snd r2) (length (builders s)) = []"
    unfolding r2 r1 k2(2) k1(2) n(2) ..
  show "connection (builders (snd r2) ! length (builders s)) = c"
    unfolding r2 r1 k2(3) k1(3) n(3) ..
qed

lemma findById_sends:
  "PgRepository_findById drv repo ident s w =
     (case Object_keys (js_get (repository_entity repo) ''columns'') of
        Inl e \<Rightarrow> (Inl e, snd (new_PgQueryBuilder s (repository_connection repo)
                                 (repository_entity repo)), w)
      | Inr keys \<Rightarrow>
          (let s3 = snd (PgQueryBuilder_where
                           (snd (PgQueryBuilder_select
                                   (snd (new_PgQueryBuilder s (repository_connection repo)
                                           (repository_entity repo)))
                                   (length (builders s)) keys))
                           (length (builders s)) ''(t) => t.id === id'')
           in case Connection_query drv (repository_connection repo) [] (Some []) w of
                (Inl e, w') \<Rightarrow> (Inl e, s3, w')
              | (Inr result, w') \<Rightarrow>
                  (Inr (js_or (array_index (rows result) 0) Null), s3, w')))"
proof (cases "Object_keys (js_get (repository_entity repo) ''columns'')")
  case (Inl e)
  then show ?thesis
    by (simp add: PgRepository_findById_def new_PgQueryBuilder_fresh fresh_builder_def)
next
  case (Inr keys)
  let ?c = "repository_connection repo"
  let ?e = "repository_entity repo"
  let ?qb = "length (builders s)"
  let ?s1 = "snd (fresh_builder s ?c ?e [] [])"
  note n = fresh_builder_new [of s ?c ?e "[]" "[]"]
  note sel = PgQueryBuilder_select_eq [OF n(4), of keys]
  let ?r1 = "PgQueryBuilder_select ?s1 ?qb keys"
  have l2: "?qb < length (builders (snd ?r1))"
    unfolding sel using fresh_builder_keeps(4) [OF n(4) n(5)] .
  note whe = PgQueryBuilder_where_eq [OF l2, of "''(t) => t.id === id''"]
  let ?r2 = "PgQueryBuilder_where (snd ?r1) ?qb ''(t) => t.id === id''"
  note d' = dropped_calls_leave_builder_empty [OF sel whe]
  have ex: "PgQueryBuilder_execute drv (snd ?r2) ?qb w =
      (case Connection_query drv ?c [] (Some []) w of
         (Inl e, w1) \<Rightarrow> (Inl e, w1)
       | (Inr result, w1) \<Rightarrow> (Inr (rows result), w1))"
    unfolding execute_eq d' ..
  have f: "fst (fresh_builder s ?c ?e [] []) = ?qb" by (simp add: fresh_builder_def)
  show ?thesis
    unfolding PgRepository_findById_def new_PgQueryBuilder_fresh Inr
    by (simp add: split_def Let_def f ex split: sum.splits)
qed

lemma decimal_digits_below_ten: "d \<in> set (decimal_digits n) \<Longrightarrow> d < 10"
proof (induction n rule: decimal_digits.induct)
  case (1 n)
  show ?case
  proof (cases "10 \<le> n")
    case True
    with "1.prems" have "d \<in> set (decimal_digits (n div 10)) \<or> d = n mod 10"
      by (subst (asm) decimal_digits.simps) auto
    with True "1.IH" show ?thesis by auto
  next
    case False
    with "1.prems" show ?thesis by (subst (asm) decimal_digits.simps) auto
  qed
qed

lemma nat_toString_digits: "set (nat_toString n) \<subseteq> set ''0123456789''"
proof
  fix c assume "c \<in> set (nat_toString n)"
  then obtain d where d: "d \<in> set (decimal_digits n)" and c: "c = digit_char d"
    by (auto simp: nat_toString_def)
  from decimal_digits_below_ten [OF d] have "d < length ''0123456789''" by simp
  then show "c \<in> set ''0123456789''"
    unfolding c digit_char_def by (rule nth_mem)
qed

lemma array_has_no_rowCount: "array_get xs ''rowCount'' = Undefined"
proof -
  have "nat_toString i \<noteq> ''rowCount''" for i
  proof
    assume "nat_toString i = ''rowCount''"
    then have "CHR ''r'' \<in> set (nat_toString i)" by simp
    with nat_toString_digits [of i] show False by auto
  qed
  then show ?thesis by (simp add: array_get_def)
qed

lemma delete_sends:
  "PgRepository_delete drv repo condition s w =
     (let s3 = snd (PgQueryBuilder_where
                      (snd (PgQueryBuilder_delete
                              (snd (new_PgQueryBuilder s (repository_connection repo)
                                      (repository_entity repo)))
                              (length (builders s))))
                      (length (builders s)) condition)
      in case Connection_query drv (repository_connection repo) [] (Some []) w of
           (Inl e, w') \<Rightarrow> (Inl e, s3, w')
         | (Inr result, w') \<Rightarrow> (Inr Undefined, s3, w'))"
proof -
  let ?c = "repository_connection repo"
  let ?e = "repository_entity repo"
  let ?qb = "length (builders s)"
  let ?s1 = "snd (fresh_builder s ?c ?e [] [])"
  note n = fresh_builder_new [of s ?c ?e "[]" "[]"]
  note del = PgQueryBuilder_delete_eq [OF n(4)]
  let ?r1 = "PgQueryBuilder_delete ?s1 ?qb"
  have l2: "?qb < length (builders (snd ?r1))"
    unfolding del using fresh_builder_keeps(4) [OF n(4) n(5)] .
  note whe = PgQueryBuilder_where_eq [OF l2, of condition]
  let ?r2 = "PgQueryBuilder_where (snd ?r1) ?qb condition"
  note d' = dropped_calls_leave_builder_empty [OF del whe]
  have ex: "PgQueryBuilder_execute drv (snd ?r2) ?qb w =
      (case Connection_query drv ?c [] (Some []) w of
         (Inl e, w1) \<Rightarrow> (Inl e, w1)
       | (Inr result, w1) \<Rightarrow> (Inr (rows result), w1))"
    unfolding execute_eq d' ..
  have f: "fst (fresh_builder s ?c ?e [] []) = ?qb" by (simp add: fresh_builder_def)
  show ?thesis
    unfolding PgRepository_delete_def new_PgQueryBuilder_fresh
    by (simp add: split_def Let_def f ex array_has_no_rowCount split: sum.splits)
qed

lemma accepting_query:
  "PgConnection_query accepting q ps w =
     (Inr \<lparr>rows = [], rowCount = 0\<rparr>, w @ [ClientConnect, ClientQuery q ps])"
  by (simp add: PgConnection_query_def client_call_def accepting_def)

lemma three_rows_affected_query:
  "PgConnection_query three_rows_affected q ps w =
     (Inr \<lparr>rows = [], rowCount = 3\<rparr>, w @ [ClientConnect, ClientQuery q ps])"
  by (simp add: PgConnection_query_def client_call_def three_rows_affected_def)

text \<open>
  Claim C5 says that \<^verbatim>\<open>findById\<close> executes a statement that selects the declared
  columns and filters by \<^verbatim>\<open>id\<close>. Whatever the repository, the id, the store and the
  driver, the only statement \<^verbatim>\<open>findById\<close> sends is the empty string with no
  parameters (and nothing when \<^verbatim>\<open>Object.keys\<close> throws); for the \<^verbatim>\<open>users\<close>
  repository the client sees a connect and the empty query, where \<^verbatim>\<open>findAll\<close>, which
  keeps the builder \<^verbatim>\<open>select\<close> returns, sends the \<^verbatim>\<open>SELECT\<close>.
\<close>

theorem findById_executes_the_empty_statement:
  \<open>snd (snd (PgRepository_findById drv repo ident s w))
     = (case Object_keys (js_get (repository_entity repo) ''columns'') of
          Inl e \<Rightarrow> w
        | Inr keys \<Rightarrow> snd (Connection_query drv (repository_connection repo) [] (Some []) w))
   \<and> snd (snd (PgRepository_findById accepting users_repository (Num 7) empty_store []))
     = [ClientConnect, ClientQuery [] (Some [])]
   \<and> snd (snd (PgRepository_findAll accepting users_repository empty_store []))
     = [ClientConnect, ClientQuery ''SELECT "id", "name", "email" FROM "users"'' (Some [])]\<close>
proof -
  have g: "snd (snd (PgRepository_findById drv repo ident s w))
     = (case Object_keys (js_get (repository_entity repo) ''columns'') of
          Inl e \<Rightarrow> w
        | Inr keys \<Rightarrow> snd (Connection_query drv (repository_connection repo) [] (Some []) w))"
    for drv repo ident s w
    unfolding findById_sends by (simp add: Let_def split: sum.splits prod.splits)
  have c: "snd (snd (PgRepository_findById accepting users_repository (Num 7) empty_store []))
     = [ClientConnect, ClientQuery [] (Some [])]"
    unfolding g
    by (simp add: users_repository_def users_def js_get_def accepting_query)
  have l: "0 < length (builders (snd (fresh_builder empty_store PgConnection users [] [])))"
    by (simp add: fresh_builder_def)
  have a: \<open>snd (snd (PgRepository_findAll accepting users_repository empty_store []))
     = [ClientConnect, ClientQuery ''SELECT "id", "name", "email" FROM "users"'' (Some [])]\<close>
    unfolding PgRepository_findAll_def new_PgQueryBuilder_fresh
    by (simp add: users_repository_def users_def js_get_def object_keys_def split_def
        fresh_builder_def empty_store_def PgQueryBuilder_select_eq execute_eq sql_of_def
        params_of_def accepting_query tableName_def quoted_def)
  from g c a show ?thesis by blast
qed

text \<open>
  Claim C6 says that \<^verbatim>\<open>delete\<close> executes the \<^verbatim>\<open>DELETE ... WHERE\<close> statement and
  returns the \<^verbatim>\<open>rowCount\<close> of the result. \<^verbatim>\<open>delete\<close> sends the empty string with
  no parameters, and what it returns when the query succeeds is \<^verbatim>\<open>undefined\<close>, the
  \<^verbatim>\<open>rowCount\<close> property of the array of rows, also when the driver reports three
  affected rows.
\<close>

theorem delete_executes_the_empty_statement_and_returns_undefined:
  \<open>PgRepository_delete drv repo condition s w =
     (let s3 = snd (PgQueryBuilder_where
                      (snd (PgQueryBuilder_delete
                              (snd (new_PgQueryBuilder s (repository_connection repo)
                                      (repository_entity repo)))
                              (length (builders s))))
                      (length (builders s)) condition)
      in case Connection_query drv (repository_connection repo) [] (Some []) w of
           (Inl e, w') \<Rightarrow> (Inl e, s3, w')
         | (Inr result, w') \<Rightarrow> (Inr Undefined, s3, w'))
   \<and> fst (PgRepository_delete three_rows_affected users_repository ''(t) => t.id === 7''
            empty_store []) = Inr Undefined
   \<and> snd (snd (PgRepository_delete three_rows_affected users_repository ''(t) => t.id === 7''
                 empty_store []))
     = [ClientConnect, ClientQuery [] (Some [])]\<close>
  by (simp add: delete_sends Let_def users_repository_def three_rows_affected_query)

end
